theory Spec2Isabelle
  imports Main "HOL-Library.Multiset" "HOL-Library.Sublist"
begin

section \<open>JSON values as the scripts read them\<close>

text \<open>
  Registry files are JSON arrays of objects. A field read such as \<^verbatim>\<open>entry.block\<close>
  yields a JSON primitive or \<^verbatim>\<open>undefined\<close> when the field is absent. Numbers are
  modelled as integers (registry files hold block heights and satoshi ordinals);
  nested objects and arrays as field values are outside the model.
\<close>

datatype jsval = JUndefined | JNull | JBool bool | JNum int | JStr string

text \<open>JavaScript truthiness, as used by \<^verbatim>\<open>!x\<close>, \<^verbatim>\<open>x && y\<close> and \<^verbatim>\<open>x || y\<close>.\<close>

fun truthy :: "jsval \<Rightarrow> bool" where
  "truthy JUndefined = False"
| "truthy JNull = False"
| "truthy (JBool b) = b"
| "truthy (JNum n) = (n \<noteq> 0)"
| "truthy (JStr s) = (s \<noteq> [])"

section \<open>Duplicate pipeline: competition stage (duplicate-competition.mjs)\<close>

record block_sat =
  bs_block :: nat
  bs_sat :: nat

record unresolved_block =
  ub_block :: nat
  ub_duplicateSats :: "nat list"

record competition_results =
  winners :: "block_sat list"
  losers :: "block_sat list"
  unresolved :: "unresolved_block list"

text \<open>
  \<^verbatim>\<open>resolveCompetition(duplicates, blockToSat)\<close>. The object \<^verbatim>\<open>duplicates\<close> is given
  as the list \<^verbatim>\<open>Object.entries\<close> iterates over, each key already through
  \<^verbatim>\<open>parseInt\<close>; the object \<^verbatim>\<open>blockToSat\<close> is a partial map, an absent property reading
  as \<^verbatim>\<open>undefined\<close>.
\<close>

fun resolveCompetition_loop ::
  "(nat \<rightharpoonup> nat) \<Rightarrow> (nat \<times> nat list) list \<Rightarrow> competition_results \<Rightarrow> competition_results" where
  "resolveCompetition_loop blockToSat [] results = results"
| "resolveCompetition_loop blockToSat ((blockNum, sats) # rest) results =
     (case blockToSat blockNum of
        None \<Rightarrow>
          resolveCompetition_loop blockToSat rest
            (results\<lparr>unresolved := unresolved results @
               [\<lparr>ub_block = blockNum, ub_duplicateSats = sats\<rparr>]\<rparr>)
      | Some registeredSat \<Rightarrow>
          (let winner = registeredSat;
               ls = filter (\<lambda>s. s \<noteq> winner) sats
           in if length ls > 0
              then resolveCompetition_loop blockToSat rest
                     (results\<lparr>winners := winners results @ [\<lparr>bs_block = blockNum, bs_sat = winner\<rparr>],
                              losers := losers results @
                                map (\<lambda>loserSat. \<lparr>bs_block = blockNum, bs_sat = loserSat\<rparr>) ls\<rparr>)
              else resolveCompetition_loop blockToSat rest results))"

definition resolveCompetition ::
  "(nat \<times> nat list) list \<Rightarrow> (nat \<rightharpoonup> nat) \<Rightarrow> competition_results" where
  "resolveCompetition duplicates blockToSat =
     resolveCompetition_loop blockToSat duplicates \<lparr>winners = [], losers = [], unresolved = []\<rparr>"

section \<open>Duplicate pipeline: validator stage (duplicate-validator.mjs)\<close>

record entry =
  e_block :: jsval
  e_sat :: jsval

record invalid_entry =
  ie_file :: string
  ie_entry :: entry
  ie_reason :: string

record duplicate_block =
  db_file :: string
  db_sat :: jsval
  db_entry :: entry

record duplicate_sat =
  ds_file :: string
  ds_block :: jsval
  ds_entry :: entry

record validator_results =
  duplicateBlocks :: "jsval \<rightharpoonup> duplicate_block list"
  duplicateSats :: "jsval \<rightharpoonup> duplicate_sat list"
  totalEntries :: nat
  uniqueBlocks :: "jsval set"
  uniqueSats :: "jsval set"
  invalidEntries :: "invalid_entry list"

text \<open>The state the constructor of \<^verbatim>\<open>DuplicateValidator\<close> creates.\<close>

definition initial_results :: validator_results where
  "initial_results =
     \<lparr>duplicateBlocks = Map.empty, duplicateSats = Map.empty, totalEntries = 0,
      uniqueBlocks = {}, uniqueSats = {}, invalidEntries = []\<rparr>"

text \<open>One iteration of the loop body of \<^verbatim>\<open>validateEntries\<close>.\<close>

definition validateEntry :: "string \<Rightarrow> entry \<Rightarrow> validator_results \<Rightarrow> validator_results" where
  "validateEntry filename e r0 =
     (let r = r0\<lparr>totalEntries := totalEntries r0 + 1\<rparr> in
      if \<not> truthy (e_block e) \<or> e_block e = JUndefined then
        r\<lparr>invalidEntries := invalidEntries r @
            [\<lparr>ie_file = filename, ie_entry = e, ie_reason = ''Missing block field''\<rparr>]\<rparr>
      else if \<not> truthy (e_sat e) \<and> e_sat e \<noteq> JNum 0 then
        r\<lparr>invalidEntries := invalidEntries r @
            [\<lparr>ie_file = filename, ie_entry = e, ie_reason = ''Missing or invalid sat field''\<rparr>]\<rparr>
      else
        (let block = e_block e; sat = e_sat e;
             r1 = (if block \<notin> uniqueBlocks r
                   then r\<lparr>uniqueBlocks := insert block (uniqueBlocks r)\<rparr>
                   else r\<lparr>duplicateBlocks := (duplicateBlocks r)(block \<mapsto>
                            (case duplicateBlocks r block of None \<Rightarrow> [] | Some ds \<Rightarrow> ds) @
                            [\<lparr>db_file = filename, db_sat = sat, db_entry = e\<rparr>])\<rparr>)
         in if sat \<notin> uniqueSats r1
            then r1\<lparr>uniqueSats := insert sat (uniqueSats r1)\<rparr>
            else r1\<lparr>duplicateSats := (duplicateSats r1)(sat \<mapsto>
                     (case duplicateSats r1 sat of None \<Rightarrow> [] | Some ds \<Rightarrow> ds) @
                     [\<lparr>ds_file = filename, ds_block = block, ds_entry = e\<rparr>])\<rparr>))"

fun validateEntries :: "entry list \<Rightarrow> string \<Rightarrow> validator_results \<Rightarrow> validator_results" where
  "validateEntries [] filename r = r"
| "validateEntries (e # es) filename r = validateEntries es filename (validateEntry filename e r)"


section \<open>Strings\<close>

text \<open>Decimal rendering of a non-negative integer, as template literals print numbers.\<close>

fun showNat :: "nat \<Rightarrow> string" where
  "showNat n =
     (if n < 10 then [''0123456789'' ! n]
      else showNat (n div 10) @ [''0123456789'' ! (n mod 10)])"

declare showNat.simps [simp del]

text \<open>\<^verbatim>\<open>String.prototype.includes\<close>: the pattern occurs somewhere in the string.\<close>

fun str_includes :: "string \<Rightarrow> string \<Rightarrow> bool" where
  "str_includes [] pat = (pat = [])"
| "str_includes (c # cs) pat = (prefix pat (c # cs) \<or> str_includes cs pat)"

section \<open>Batch reconciler (validator.mjs)\<close>

subsection \<open>Constructing the comparator\<close>

text \<open>
  An identifier in a function body is looked up in the function's own scope (its
  parameters, bound to the arguments of the call), then in the module's top-level
  scope, then among the properties of the global object; a name found nowhere throws a
  \<^verbatim>\<open>ReferenceError\<close>. A property read on \<^verbatim>\<open>undefined\<close> or \<^verbatim>\<open>null\<close> throws a
  \<^verbatim>\<open>TypeError\<close>.
\<close>

datatype js_error = ReferenceError string | TypeError string

datatype argval = AUndefined | ANull | AObject "(string \<times> jsval) list"

datatype binding = Argument argval | Declared

type_synonym scope = "string \<rightharpoonup> binding"

text \<open>
  Binding the parameters of a call: a missing argument reads as \<^verbatim>\<open>undefined\<close>, an
  argument beyond the parameter list binds no name.
\<close>

fun bindParameters :: "string list \<Rightarrow> argval list \<Rightarrow> scope" where
  "bindParameters [] args = Map.empty"
| "bindParameters (p # ps) [] = (bindParameters ps [])(p \<mapsto> Argument AUndefined)"
| "bindParameters (p # ps) (a # args) = (bindParameters ps args)(p \<mapsto> Argument a)"

fun resolveIdentifier :: "scope list \<Rightarrow> string \<Rightarrow> js_error + binding" where
  "resolveIdentifier [] name = Inl (ReferenceError name)"
| "resolveIdentifier (sc # scs) name =
     (case sc name of Some b \<Rightarrow> Inr b | None \<Rightarrow> resolveIdentifier scs name)"

fun getProperty :: "binding \<Rightarrow> string \<Rightarrow> js_error + jsval" where
  "getProperty (Argument AUndefined) name = Inl (TypeError name)"
| "getProperty (Argument ANull) name = Inl (TypeError name)"
| "getProperty (Argument (AObject props)) name =
     (case map_of props name of Some v \<Rightarrow> Inr v | None \<Rightarrow> Inr JUndefined)"
| "getProperty Declared name = Inr JUndefined"

text \<open>The imports and top-level declarations of \<^verbatim>\<open>src/validator.mjs\<close>.\<close>

definition validator_module_scope :: scope where
  "validator_module_scope =
     map_of (map (\<lambda>n. (n, Declared))
       [''https'', ''fs'', ''path'', ''fileURLToPath'', ''dirname'', ''SatComparator'',
        ''__filename'', ''__dirname'', ''getRegistryFileForBlock'', ''colors'',
        ''RegistryComparator'', ''main''])"

text \<open>One registry record, \<^verbatim>\<open>{block, iD, sat}\<close>; an absent \<^verbatim>\<open>iD\<close> is \<open>None\<close>.\<close>

record registry_record =
  r_block :: nat
  r_iD :: "string option"

text \<open>
  The comparator object. \<open>requests\<close> is the trace of the URLs for which a network
  fetch was issued, oldest first; the source keeps no such list, it is what
  \<^verbatim>\<open>fetchJSON\<close> does to the outside.
\<close>

record registry_comparator =
  repo1Base :: string
  repo2Base :: string
  repo1ListUrl :: string
  repo2ListUrl :: string
  registryCache :: "string \<rightharpoonup> registry_record list"
  suppressFileOutput :: jsval
  requests :: "string list"

text \<open>\<^verbatim>\<open>x || false\<close>\<close>

definition or_false :: "jsval \<Rightarrow> jsval" where
  "or_false v = (if truthy v then v else JBool False)"

text \<open>
  The constructor of \<^verbatim>\<open>src/validator.mjs\<close>: \<^verbatim>\<open>constructor()\<close> declares no parameter
  and its last statement reads \<^verbatim>\<open>options.suppressFileOutput\<close>. \<open>globals\<close> are the
  properties of the global object.
\<close>

definition RegistryComparator_constructor :: "scope \<Rightarrow> argval list \<Rightarrow> js_error + registry_comparator" where
  "RegistryComparator_constructor globals args =
     (let scopes = [bindParameters [] args, validator_module_scope, globals] in
      case resolveIdentifier scopes ''options'' of
        Inl err \<Rightarrow> Inl err
      | Inr opts \<Rightarrow>
          (case getProperty opts ''suppressFileOutput'' of
             Inl err \<Rightarrow> Inl err
           | Inr v \<Rightarrow>
               Inr \<lparr>repo1Base = ''https://raw.githubusercontent.com/your-org/repo1/main/Registry/'',
                    repo2Base = ''https://raw.githubusercontent.com/your-org/repo2/main/Registry/'',
                    repo1ListUrl = ''https://api.github.com/repos/your-org/repo1/contents/Registry'',
                    repo2ListUrl = ''https://api.github.com/repos/your-org/repo2/contents/Registry'',
                    registryCache = Map.empty,
                    suppressFileOutput = or_false v,
                    requests = []\<rparr>))"

text \<open>
  The constructor of the sibling \<^verbatim>\<open>src/sat comp/validator.mjs\<close>:
  \<^verbatim>\<open>constructor(options = {})\<close>; the default applies to a missing or \<^verbatim>\<open>undefined\<close>
  argument only.
\<close>

definition RegistryComparator_constructor_satcomp :: "scope \<Rightarrow> argval list \<Rightarrow> js_error + registry_comparator" where
  "RegistryComparator_constructor_satcomp globals args =
     (let supplied = bindParameters [''options''] args;
          params = (case supplied ''options'' of
                      Some (Argument AUndefined) \<Rightarrow> supplied(''options'' \<mapsto> Argument (AObject []))
                    | _ \<Rightarrow> supplied);
          scopes = [params, validator_module_scope, globals] in
      case resolveIdentifier scopes ''options'' of
        Inl err \<Rightarrow> Inl err
      | Inr opts \<Rightarrow>
          (case getProperty opts ''suppressFileOutput'' of
             Inl err \<Rightarrow> Inl err
           | Inr v \<Rightarrow>
               Inr \<lparr>repo1Base = ''https://raw.githubusercontent.com/YOUR_USER_NAME/bitmap-indexer/refs/heads/main/Registry/'',
                    repo2Base = ''file:///C:YOUR_FILE_DIRECTORY'',
                    repo1ListUrl = ''https://api.github.com/repos/YOUR_USER_NAME/bitmap-indexer/contents/Registry'',
                    repo2ListUrl = ''file:///C:YOUR_FILE_DIRECTORY'',
                    registryCache = Map.empty,
                    suppressFileOutput = or_false v,
                    requests = []\<rparr>))"

subsection \<open>Identity lookup with the registry cache\<close>







subsection \<open>What the registry cache is to guarantee\<close>




section \<open>Diff engine (sat-comparator.mjs)\<close>

text \<open>
  A keyed dataset is the \<^verbatim>\<open>Map\<close> that \<^verbatim>\<open>loadFile\<close> returns, from sat to block: the
  list of its entries in insertion order, the keys distinct. Sats and blocks are
  non-negative integers. The \<^verbatim>\<open>source\<close> label stored beside each block and the
  \<^verbatim>\<open>description\<close> text of a difference are never read again and are left out.
\<close>

type_synonym dataset = "(nat \<times> nat) list"

text \<open>\<^verbatim>\<open>Map.prototype.set\<close>: a key that is present keeps its place and takes the new value.\<close>

fun mapSet :: "('k \<times> 'v) list \<Rightarrow> 'k \<Rightarrow> 'v \<Rightarrow> ('k \<times> 'v) list" where
  "mapSet [] k v = [(k, v)]"
| "mapSet ((k', v') # m) k v = (if k' = k then (k, v) # m else (k', v') # mapSet m k v)"

text \<open>\<^verbatim>\<open>new Set(iterable)\<close>: the elements in order of first occurrence.\<close>

definition setAdd :: "'a list \<Rightarrow> 'a \<Rightarrow> 'a list" where
  "setAdd s x = (if x \<in> set s then s else s @ [x])"

definition newSet :: "'a list \<Rightarrow> 'a list" where
  "newSet xs = foldl setAdd [] xs"

datatype difference =
    CONFLICT nat nat nat
  | FILE1_ONLY nat nat
  | FILE2_ONLY nat nat
  | BLOCK_CONFLICT nat nat nat

text \<open>
  The fields the sort comparator reads: \<^verbatim>\<open>sat\<close> exists on the three sat-keyed kinds
  (\<open>CONFLICT sat file1Block file2Block\<close>, \<open>FILE1_ONLY sat file1Block\<close>,
  \<open>FILE2_ONLY sat file2Block\<close>), \<^verbatim>\<open>block\<close> on \<open>BLOCK_CONFLICT block file1Sat file2Sat\<close>
  only.
\<close>

fun d_sat :: "difference \<Rightarrow> nat option" where
  "d_sat (CONFLICT sat b1 b2) = Some sat"
| "d_sat (FILE1_ONLY sat b1) = Some sat"
| "d_sat (FILE2_ONLY sat b2) = Some sat"
| "d_sat (BLOCK_CONFLICT block s1 s2) = None"

fun d_block :: "difference \<Rightarrow> nat option" where
  "d_block (BLOCK_CONFLICT block s1 s2) = Some block"
| "d_block d = None"

text \<open>Truthiness of a field that is a number or absent.\<close>

fun present :: "nat option \<Rightarrow> bool" where
  "present None = False"
| "present (Some n) = (n \<noteq> 0)"

text \<open>The comparator handed to \<^verbatim>\<open>differences.sort\<close>.\<close>

definition compareDifferences :: "difference \<Rightarrow> difference \<Rightarrow> int" where
  "compareDifferences a b =
     (if present (d_sat a) \<and> present (d_sat b) then int (the (d_sat a)) - int (the (d_sat b))
      else if present (d_block a) \<and> present (d_block b)
           then int (the (d_block a)) - int (the (d_block b))
      else 0)"

text \<open>
  \<^verbatim>\<open>Array.prototype.sort\<close> is the host's built-in. The language fixes its result for a
  consistent comparator only (the stable ascending order); the comparator above is not
  consistent, so the sort is modelled the way the engine of Node performs it on an
  array of fewer than 64 elements: the run the array starts with is measured, reversed
  when it is strictly descending, and every later element is put into the sorted front
  part at the place a binary search finds. The comparator is always called with the
  later element first, and a result below 0 means that it goes in front. Longer arrays
  are cut into several runs that the engine merges; for a consistent comparator the
  result is the same.
\<close>

text \<open>How many elements after \<open>previousElement\<close> continue the run.\<close>

fun runLength :: "('a \<Rightarrow> 'a \<Rightarrow> int) \<Rightarrow> bool \<Rightarrow> 'a \<Rightarrow> 'a list \<Rightarrow> nat" where
  "runLength cmp isDescending previousElement [] = 0"
| "runLength cmp isDescending previousElement (currentElement # rest) =
     (if (if isDescending then cmp currentElement previousElement \<ge> 0
          else cmp currentElement previousElement < 0)
      then 0
      else Suc (runLength cmp isDescending currentElement rest))"

text \<open>The place of \<open>pivot\<close> in the sorted front part, between \<open>left\<close> and \<open>right\<close>.\<close>

function binarySearch :: "('a \<Rightarrow> 'a \<Rightarrow> int) \<Rightarrow> 'a \<Rightarrow> 'a list \<Rightarrow> nat \<Rightarrow> nat \<Rightarrow> nat" where
  "binarySearch cmp pivot workArray left right =
     (if left < right
      then (let mid = left + (right - left) div 2
            in if cmp pivot (workArray ! mid) < 0
               then binarySearch cmp pivot workArray left mid
               else binarySearch cmp pivot workArray (mid + 1) right)
      else left)"
  by pat_completeness auto
termination
  by (relation "measure (\<lambda>(cmp, pivot, workArray, left, right). right - left)") auto

declare binarySearch.simps [simp del]

definition binaryInsert :: "('a \<Rightarrow> 'a \<Rightarrow> int) \<Rightarrow> 'a list \<Rightarrow> 'a \<Rightarrow> 'a list" where
  "binaryInsert cmp front pivot =
     (let left = binarySearch cmp pivot front 0 (length front)
      in take left front @ [pivot] @ drop left front)"

definition arraySort :: "('a \<Rightarrow> 'a \<Rightarrow> int) \<Rightarrow> 'a list \<Rightarrow> 'a list" where
  "arraySort cmp xs =
     (case xs of
        elementLow # elementHigh # rest \<Rightarrow>
          (let isDescending = (cmp elementHigh elementLow < 0);
               n = 2 + runLength cmp isDescending elementHigh rest;
               run = (if isDescending then rev (take n xs) else take n xs)
           in foldl (binaryInsert cmp) run (drop n xs))
      | short \<Rightarrow> short)"

text \<open>The comparator object; the fields of \<^verbatim>\<open>stats\<close> are fields of the record.\<close>

record sat_comparator =
  file1Data :: dataset
  file2Data :: dataset
  differences :: "difference list"
  file1Count :: nat
  file2Count :: nat
  matches :: nat
  conflicts :: nat
  file1Only :: nat
  file2Only :: nat

definition new_SatComparator :: sat_comparator where
  "new_SatComparator =
     \<lparr>file1Data = [], file2Data = [], differences = [], file1Count = 0, file2Count = 0,
      matches = 0, conflicts = 0, file1Only = 0, file2Only = 0\<rparr>"

text \<open>The reverse mapping, block to sat: a later sat of the same block overwrites.\<close>

definition buildBlockToSat :: "dataset \<Rightarrow> (nat \<times> nat) list" where
  "buildBlockToSat fileData = foldl (\<lambda>m (sat, block). mapSet m block sat) [] fileData"

text \<open>The body of the loop over \<^verbatim>\<open>allSats\<close>.\<close>

definition classifySat :: "sat_comparator \<Rightarrow> nat \<Rightarrow> sat_comparator" where
  "classifySat c sat =
     (case (map_of (file1Data c) sat, map_of (file2Data c) sat) of
        (Some file1Block, Some file2Block) \<Rightarrow>
          (if file1Block = file2Block then c\<lparr>matches := matches c + 1\<rparr>
           else c\<lparr>differences := differences c @ [CONFLICT sat file1Block file2Block],
                  conflicts := conflicts c + 1\<rparr>)
      | (Some file1Block, None) \<Rightarrow>
          c\<lparr>differences := differences c @ [FILE1_ONLY sat file1Block],
            file1Only := file1Only c + 1\<rparr>
      | (None, Some file2Block) \<Rightarrow>
          c\<lparr>differences := differences c @ [FILE2_ONLY sat file2Block],
            file2Only := file2Only c + 1\<rparr>
      | (None, None) \<Rightarrow> c)"

text \<open>The body of the loop over \<^verbatim>\<open>allBlocks\<close>; a sat of 0 fails the truthiness test.\<close>

definition checkBlock ::
  "(nat \<times> nat) list \<Rightarrow> (nat \<times> nat) list \<Rightarrow> sat_comparator \<Rightarrow> nat \<Rightarrow> sat_comparator" where
  "checkBlock file1BlockToSat file2BlockToSat c block =
     (if present (map_of file1BlockToSat block) \<and> present (map_of file2BlockToSat block)
         \<and> map_of file1BlockToSat block \<noteq> map_of file2BlockToSat block
      then c\<lparr>differences := differences c @
               [BLOCK_CONFLICT block (the (map_of file1BlockToSat block))
                                     (the (map_of file2BlockToSat block))]\<rparr>
      else c)"

text \<open>\<^verbatim>\<open>compareFiles\<close>, from the two loaded datasets on.\<close>

definition compareFiles :: "dataset \<Rightarrow> dataset \<Rightarrow> sat_comparator \<Rightarrow> sat_comparator" where
  "compareFiles data1 data2 c0 =
     (let c1 = c0\<lparr>file1Data := data1, file2Data := data2,
                  file1Count := length data1, file2Count := length data2\<rparr>;
          file1BlockToSat = buildBlockToSat data1;
          file2BlockToSat = buildBlockToSat data2;
          allSats = newSet (map fst data1 @ map fst data2);
          c2 = foldl classifySat c1 allSats;
          allBlocks = newSet (map fst file1BlockToSat @ map fst file2BlockToSat);
          c3 = foldl (checkBlock file1BlockToSat file2BlockToSat) c2 allBlocks
      in c3\<lparr>differences := arraySort compareDifferences (differences c3)\<rparr>)"

section \<open>Provider access layer and FiF resolver (true-bitmap.mjs)\<close>

subsection \<open>The outside world\<close>

text \<open>
  Every request the resolver issues, every reading of the clock and every marking of
  a provider as exhausted is an event of the run's trace, oldest first. The source
  keeps no such list: the trace is what the resolver does, in order. What the network
  answers and what the clock shows may depend on everything that happened before.
\<close>

datatype api = Mempool | Blockstream | Blockchair | BlockchainInfo | Ordinals

datatype event =
    Sent api string bool
  | ReadClock
  | Marked api

text \<open>
  \<open>Sent a url auth\<close>: a request to provider \<open>a\<close>, with or without an
  \<^verbatim>\<open>Authorization\<close> header. A redirect chain counts as the one request that started
  it, answered by the response at its end.
\<close>

record tx_status =
  block_height :: "nat option"
  block_hash :: "string option"

text \<open>
  The JSON documents the resolver can tell apart: an object with its \<^verbatim>\<open>status\<close> field
  (transaction endpoints), an array of transaction ids, a Blockchair block dashboard
  with the transaction list of its first key, a blockchain.info raw block with the
  hashes of its \<^verbatim>\<open>tx\<close> array (\<open>None\<close> where that part is missing or no array), and
  anything else.
\<close>

datatype json_body =
    TxObject "tx_status option"
  | TxidArray "string list"
  | BlockchairBlock "string list option"
  | BlockchainInfoBlock "string list option"
  | OtherJson

text \<open>
  The answer to one request: a status code with the outcome of \<^verbatim>\<open>JSON.parse\<close> on the
  body (\<open>Inl\<close> the parser's message), or a transport error with its message.
\<close>

datatype response = Http nat "string + json_body" | NetworkError string

record world =
  respond :: "event list \<Rightarrow> api \<Rightarrow> string \<Rightarrow> bool \<Rightarrow> response"
  clock :: "event list \<Rightarrow> nat"
  credentials :: bool
  inscriptionSatoshi :: "event list \<Rightarrow> string \<Rightarrow> string option"
  inscriptionBySat :: "event list \<Rightarrow> nat \<Rightarrow> nat \<Rightarrow> string option"

text \<open>
  \<open>credentials\<close>: both \<^verbatim>\<open>BLOCKSTREAM_CLIENT_ID\<close> and \<^verbatim>\<open>BLOCKSTREAM_CLIENT_SECRET\<close> are
  set in the environment. \<open>inscriptionSatoshi\<close> and \<open>inscriptionBySat\<close> are the results
  of \<^verbatim>\<open>getInscriptionSatoshi\<close> and \<^verbatim>\<open>getInscriptionBySat\<close>: both talk to ordinals.com
  only, touch no field of the resolver, catch every error of their own and return
  \<^verbatim>\<open>null\<close> (\<open>None\<close>) on failure.
\<close>

subsection \<open>The resolver's state\<close>

record counter =
  c_count :: nat
  c_resetAt :: nat
  c_exhausted :: bool

record resolver =
  blockstreamAuthHeader :: bool
  blockstreamVerified :: bool
  blockCache :: "nat \<rightharpoonup> string list"
  activeApiIndex :: nat
  mempoolCounter :: counter
  blockstreamCounter :: counter
  trace :: "event list"

text \<open>The constructor, run at time \<open>now\<close>.\<close>

definition new_TrueBitmapResolver :: "world \<Rightarrow> nat \<Rightarrow> resolver" where
  "new_TrueBitmapResolver w now =
     \<lparr>blockstreamAuthHeader = credentials w,
      blockstreamVerified = False,
      blockCache = Map.empty,
      activeApiIndex = 0,
      mempoolCounter = \<lparr>c_count = 0, c_resetAt = now + 3600000, c_exhausted = False\<rparr>,
      blockstreamCounter = \<lparr>c_count = 0, c_resetAt = now + 3600000, c_exhausted = False\<rparr>,
      trace = []\<rparr>"

text \<open>\<^verbatim>\<open>this.requestCounters[api.name]\<close> for the two primary providers.\<close>

fun requestCounter :: "resolver \<Rightarrow> api \<Rightarrow> counter" where
  "requestCounter s Mempool = mempoolCounter s"
| "requestCounter s a = blockstreamCounter s"

fun setRequestCounter :: "api \<Rightarrow> counter \<Rightarrow> resolver \<Rightarrow> resolver" where
  "setRequestCounter Mempool c s = s\<lparr>mempoolCounter := c\<rparr>"
| "setRequestCounter a c s = s\<lparr>blockstreamCounter := c\<rparr>"

definition blockstreamBase :: string where
  "blockstreamBase = ''https://blockstream.info/api''"

subsection \<open>Requests with retry\<close>

text \<open>\<^verbatim>\<open>String.prototype.toLowerCase\<close> on the ASCII letters.\<close>

definition toLowerCase :: "string \<Rightarrow> string" where
  "toLowerCase s =
     map (\<lambda>c. case map_of (zip ''ABCDEFGHIJKLMNOPQRSTUVWXYZ'' ''abcdefghijklmnopqrstuvwxyz'') c of
                 Some l \<Rightarrow> l | None \<Rightarrow> c) s"

text \<open>
  One attempt of \<^verbatim>\<open>fetchJSONWithRetry\<close>: the promise resolves with the parsed body
  (\<open>Inr\<close>) or rejects with an error message (\<open>Inl\<close>). A 401 from Blockstream clears the
  cached credential.
\<close>

definition attemptJSON :: "world \<Rightarrow> string \<Rightarrow> api \<Rightarrow> resolver \<Rightarrow> (string + json_body) \<times> resolver" where
  "attemptJSON w url apiName s =
     (let auth = (apiName = Blockstream \<and> blockstreamAuthHeader s);
          s1 = s\<lparr>trace := trace s @ [Sent apiName url auth]\<rparr>
      in case respond w (trace s) apiName url auth of
           NetworkError msg \<Rightarrow> (Inl msg, s1)
         | Http code body \<Rightarrow>
             if code = 401 \<and> apiName = Blockstream
             then (Inl ''HTTP 401'', s1\<lparr>blockstreamAuthHeader := False, blockstreamVerified := False\<rparr>)
             else if code = 429 then (Inl ''HTTP 429'', s1)
             else if code \<noteq> 200 then (Inl (''HTTP '' @ showNat code), s1)
             else (case body of
                     Inr parsed \<Rightarrow> (Inr parsed, s1)
                   | Inl msg \<Rightarrow> (Inl (''JSON parse error: '' @ msg), s1)))"

text \<open>
  The retry loop, by the number of attempts left (\<^verbatim>\<open>retries = 3\<close> at every call): the
  error of the last attempt is thrown, an earlier one is followed by a sleep and the
  next attempt. With no attempt left to start with the loop body never runs and the
  function returns \<^verbatim>\<open>undefined\<close>.
\<close>

fun fetchJSONWithRetry_loop ::
  "world \<Rightarrow> string \<Rightarrow> api \<Rightarrow> nat \<Rightarrow> resolver \<Rightarrow> (string + json_body) \<times> resolver" where
  "fetchJSONWithRetry_loop w url apiName 0 s = (Inr OtherJson, s)"
| "fetchJSONWithRetry_loop w url apiName (Suc left) s =
     (case attemptJSON w url apiName s of
        (Inr parsed, s1) \<Rightarrow> (Inr parsed, s1)
      | (Inl err, s1) \<Rightarrow>
          if left = 0 then (Inl err, s1) else fetchJSONWithRetry_loop w url apiName left s1)"

definition fetchJSONWithRetry :: "world \<Rightarrow> string \<Rightarrow> api \<Rightarrow> resolver \<Rightarrow> (string + json_body) \<times> resolver" where
  "fetchJSONWithRetry w url apiName s = fetchJSONWithRetry_loop w url apiName 3 s"

text \<open>
  \<^verbatim>\<open>fetchJSON\<close> as \<^verbatim>\<open>verifyBlockstreamCredentials\<close> calls it: a request to Blockstream
  with the \<^verbatim>\<open>Authorization\<close> header, three attempts.
\<close>

definition attemptFetchJSON :: "world \<Rightarrow> string \<Rightarrow> resolver \<Rightarrow> (string + json_body) \<times> resolver" where
  "attemptFetchJSON w url s =
     (let s1 = s\<lparr>trace := trace s @ [Sent Blockstream url True]\<rparr>
      in case respond w (trace s) Blockstream url True of
           NetworkError msg \<Rightarrow> (Inl msg, s1)
         | Http code body \<Rightarrow>
             if code \<noteq> 200 then (Inl (''HTTP '' @ showNat code @ '' for '' @ url), s1)
             else (case body of
                     Inr parsed \<Rightarrow> (Inr parsed, s1)
                   | Inl msg \<Rightarrow> (Inl (''JSON parse error: '' @ msg), s1)))"

fun fetchJSON_loop :: "world \<Rightarrow> string \<Rightarrow> nat \<Rightarrow> resolver \<Rightarrow> (string + json_body) \<times> resolver" where
  "fetchJSON_loop w url 0 s = (Inr OtherJson, s)"
| "fetchJSON_loop w url (Suc left) s =
     (case attemptFetchJSON w url s of
        (Inr parsed, s1) \<Rightarrow> (Inr parsed, s1)
      | (Inl err, s1) \<Rightarrow>
          if left = 0 then (Inl err, s1) else fetchJSON_loop w url left s1)"

definition refreshBlockstreamAuth :: "world \<Rightarrow> resolver \<Rightarrow> resolver" where
  "refreshBlockstreamAuth w s = s\<lparr>blockstreamAuthHeader := credentials w\<rparr>"

text \<open>\<^verbatim>\<open>verifyBlockstreamCredentials\<close>; it catches every error, its result is not used.\<close>

definition verifyBlockstreamCredentials :: "world \<Rightarrow> resolver \<Rightarrow> resolver" where
  "verifyBlockstreamCredentials w s =
     (if blockstreamVerified s then s
      else if \<not> blockstreamAuthHeader s then s
      else (case fetchJSON_loop w (blockstreamBase @ ''/blocks/tip/height'') 3 s of
              (Inr parsed, s1) \<Rightarrow> s1\<lparr>blockstreamVerified := True\<rparr>
            | (Inl err, s1) \<Rightarrow>
                if str_includes err ''401''
                then s1\<lparr>blockstreamAuthHeader := False, blockstreamVerified := False\<rparr>
                else s1))"

subsection \<open>The provider router\<close>

text \<open>
  Marking a provider exhausted, as both places of \<^verbatim>\<open>fetchFromAPI\<close> do it: the flag is
  set and the active index moves past position \<open>i\<close>.
\<close>

definition markExhausted :: "api \<Rightarrow> nat \<Rightarrow> resolver \<Rightarrow> resolver" where
  "markExhausted a i s =
     (setRequestCounter a ((requestCounter s a)\<lparr>c_exhausted := True\<rparr>) s)
       \<lparr>activeApiIndex := max (activeApiIndex s) (i + 1),
         trace := trace s @ [Marked a]\<rparr>"

text \<open>The quota window: two readings of the clock when the window has elapsed.\<close>

definition checkQuota :: "world \<Rightarrow> api \<Rightarrow> resolver \<Rightarrow> resolver" where
  "checkQuota w a s =
     (let now1 = clock w (trace s);
          s1 = s\<lparr>trace := trace s @ [ReadClock]\<rparr>
      in if now1 \<ge> c_resetAt (requestCounter s1 a)
         then (let now2 = clock w (trace s1);
                   s2 = s1\<lparr>trace := trace s1 @ [ReadClock]\<rparr>
               in setRequestCounter a
                    \<lparr>c_count = 0, c_resetAt = now2 + 3600000, c_exhausted = False\<rparr> s2)
         else s1)"

definition apiUrl :: "api \<Rightarrow> string \<Rightarrow> string \<Rightarrow> string" where
  "apiUrl a apiType t =
     (if a = Mempool then ''https://mempool.space/api/tx/'' @ t
      else blockstreamBase @ ''/'' @ apiType @ ''/'' @ t)"

text \<open>
  The loop of \<^verbatim>\<open>fetchFromAPI\<close> over the providers still to visit, each with its
  position in \<^verbatim>\<open>primaryApis\<close>. \<open>lastError\<close> is \<open>None\<close> while undefined.
\<close>

fun fetchFromAPI_loop ::
  "world \<Rightarrow> string \<Rightarrow> string \<Rightarrow> (nat \<times> api) list \<Rightarrow> string option \<Rightarrow> resolver
     \<Rightarrow> (string + api \<times> json_body) \<times> resolver" where
  "fetchFromAPI_loop w t apiType [] lastError s =
     (Inl (case lastError of Some err \<Rightarrow> err | None \<Rightarrow> ''All primary APIs exhausted''), s)"
| "fetchFromAPI_loop w t apiType ((i, a) # rest) lastError s =
     (let url = apiUrl a apiType t;
          s1 = (if a = Blockstream
                then (let r = refreshBlockstreamAuth w s
                      in if blockstreamAuthHeader r \<and> \<not> blockstreamVerified r
                         then verifyBlockstreamCredentials w r else r)
                else s);
          s2 = checkQuota w a s1
      in if c_exhausted (requestCounter s2 a)
         then fetchFromAPI_loop w t apiType rest lastError s2
         else (let s3 = setRequestCounter a
                          ((requestCounter s2 a)\<lparr>c_count := c_count (requestCounter s2 a) + 1\<rparr>) s2
               in case fetchJSONWithRetry w url a s3 of
                    (Inr parsed, s4) \<Rightarrow> (Inr (a, parsed), s4)
                  | (Inl err, s4) \<Rightarrow>
                      if str_includes err ''429'' \<or> str_includes (toLowerCase err) ''rate''
                      then fetchFromAPI_loop w t apiType rest (Some err) (markExhausted a i s4)
                      else if a = Blockstream \<and> str_includes err ''401''
                      then (case fetchJSONWithRetry w url Blockstream
                                   (s4\<lparr>blockstreamAuthHeader := False, blockstreamVerified := False\<rparr>) of
                              (Inr parsed, s5) \<Rightarrow> (Inr (Blockstream, parsed), s5)
                            | (Inl secondError, s5) \<Rightarrow>
                                fetchFromAPI_loop w t apiType rest (Some secondError)
                                  (markExhausted a i s5))
                      else fetchFromAPI_loop w t apiType rest (Some err) s4))"

definition primaryApis :: "(nat \<times> api) list" where
  "primaryApis = [(0, Mempool), (1, Blockstream)]"

definition fetchFromAPI ::
  "world \<Rightarrow> string \<Rightarrow> string \<Rightarrow> resolver \<Rightarrow> (string + api \<times> json_body) \<times> resolver" where
  "fetchFromAPI w t apiType s =
     fetchFromAPI_loop w t apiType (drop (activeApiIndex s) primaryApis) None s"

subsection \<open>Ledger position of a transaction\<close>

record ledger_position =
  blockHeight :: "nat option"
  blockPosition :: "nat option"

definition unknown_position :: ledger_position where
  "unknown_position = \<lparr>blockHeight = None, blockPosition = None\<rparr>"

text \<open>\<^verbatim>\<open>Array.prototype.indexOf\<close>, \<open>None\<close> for \<open>-1\<close>.\<close>

fun indexOf :: "'a list \<Rightarrow> 'a \<Rightarrow> nat option" where
  "indexOf [] x = None"
| "indexOf (y # ys) x = (if y = x then Some 0 else map_option Suc (indexOf ys x))"

text \<open>
  The chain of providers for the list of transaction ids of a block: mempool.space,
  Blockstream, Blockchair, blockchain.info, each tried when the one before threw. The
  result is what \<^verbatim>\<open>txList\<close> holds after the chain, or the error thrown by it. A
  document of the wrong shape from one of the first two providers is accepted here and
  refused by the check that follows the chain. The message of the final error, which is
  only logged, is shortened.
\<close>

definition fetchBlockTxids :: "world \<Rightarrow> string \<Rightarrow> resolver \<Rightarrow> (string + json_body) \<times> resolver" where
  "fetchBlockTxids w blockHash s =
     (case fetchJSONWithRetry w (''https://mempool.space/api/block/'' @ blockHash @ ''/txids'') Mempool s of
        (Inr txList, s1) \<Rightarrow> (Inr txList, s1)
      | (Inl mempoolError, s1) \<Rightarrow>
          (case fetchJSONWithRetry w (blockstreamBase @ ''/block/'' @ blockHash @ ''/txids'') Blockstream s1 of
             (Inr txList, s2) \<Rightarrow> (Inr txList, s2)
           | (Inl blockstreamError, s2) \<Rightarrow>
               (case fetchJSONWithRetry w
                       (''https://api.blockchair.com/bitcoin/dashboards/block/'' @ blockHash) Blockchair s2 of
                  (Inr (BlockchairBlock (Some transactions)), s3) \<Rightarrow> (Inr (TxidArray transactions), s3)
                | (r3, s3) \<Rightarrow>
                    (case fetchJSONWithRetry w
                            (''https://blockchain.info/rawblock/'' @ blockHash) BlockchainInfo s3 of
                       (Inr (BlockchainInfoBlock (Some hashes)), s4) \<Rightarrow> (Inr (TxidArray hashes), s4)
                     | (r4, s4) \<Rightarrow> (Inl ''All block txid APIs failed'', s4)))))"

text \<open>
  \<^verbatim>\<open>getTxPositionInBlock\<close>. Every error inside is caught and gives the unknown
  position. A block height of 0 and an empty block hash are falsy, and read as
  unconfirmed.
\<close>

definition getTxPositionInBlock :: "world \<Rightarrow> string \<Rightarrow> resolver \<Rightarrow> ledger_position \<times> resolver" where
  "getTxPositionInBlock w txid s =
     (case fetchFromAPI w txid ''tx'' s of
        (Inl err, s1) \<Rightarrow> (unknown_position, s1)
      | (Inr (txApi, txDataRaw), s1) \<Rightarrow>
          (case txDataRaw of
             TxObject (Some status) \<Rightarrow>
               (case (block_height status, block_hash status) of
                  (Some height, Some hash) \<Rightarrow>
                    if height = 0 \<or> hash = [] then (unknown_position, s1)
                    else
                      (case blockCache s1 height of
                         Some txList \<Rightarrow>
                           (\<lparr>blockHeight = Some height, blockPosition = indexOf txList txid\<rparr>, s1)
                       | None \<Rightarrow>
                           (case fetchBlockTxids w hash s1 of
                              (Inr (TxidArray txList), s2) \<Rightarrow>
                                if txList = [] then (unknown_position, s2)
                                else (\<lparr>blockHeight = Some height, blockPosition = indexOf txList txid\<rparr>,
                                      s2\<lparr>blockCache := (blockCache s2)(height \<mapsto> txList)\<rparr>)
                            | (r, s2) \<Rightarrow> (unknown_position, s2)))
                | other \<Rightarrow> (unknown_position, s1))
           | other \<Rightarrow> (unknown_position, s1)))"

subsection \<open>Conflicts and verdicts\<close>

record conflict =
  c_block :: nat
  repo1Id :: string
  repo2Id :: string
  file1Sat :: nat
  file2Sat :: nat

datatype winner = REPO1 | REPO2 | BOTH | NEITHER | UNKNOWN

record verdict =
  v_block :: nat
  v_winner :: winner
  v_inscriptionId :: "string option"
  v_winningSat :: "nat option"
  v_losingSat :: "nat option"
  v_reason :: string

text \<open>
  \<^verbatim>\<open>extractTxId\<close>: the first 64 characters of an id of the form
  \<^verbatim>\<open>/^([a-f0-9]{64})i\d+$/\<close>, \<open>None\<close> for \<^verbatim>\<open>null\<close>.
\<close>

definition extractTxId :: "string \<Rightarrow> string option" where
  "extractTxId inscriptionId =
     (if inscriptionId = [] \<or> inscriptionId = ''ID not found'' then None
      else if length inscriptionId > 65
              \<and> list_all (\<lambda>c. c \<in> set ''0123456789abcdef'') (take 64 inscriptionId)
              \<and> inscriptionId ! 64 = CHR ''i''
              \<and> list_all (\<lambda>c. c \<in> set ''0123456789'') (drop 65 inscriptionId)
           then Some (take 64 inscriptionId)
           else None)"

definition otherRepo :: "winner \<Rightarrow> winner" where
  "otherRepo r = (if r = REPO1 then REPO2 else REPO1)"

text \<open>
  The rules of \<^verbatim>\<open>resolveConflict\<close> for two different identities, from the two ledger
  positions on (steps 1 and 2 and the handling of missing data).
\<close>

definition decideByPosition :: "conflict \<Rightarrow> ledger_position \<Rightarrow> ledger_position \<Rightarrow> verdict" where
  "decideByPosition c tx1Data tx2Data =
     (let won1 = (\<lambda>reason. \<lparr>v_block = c_block c, v_winner = REPO1, v_inscriptionId = Some (repo1Id c),
                   v_winningSat = Some (file1Sat c), v_losingSat = Some (file2Sat c), v_reason = reason\<rparr>);
          won2 = (\<lambda>reason. \<lparr>v_block = c_block c, v_winner = REPO2, v_inscriptionId = Some (repo2Id c),
                   v_winningSat = Some (file2Sat c), v_losingSat = Some (file1Sat c), v_reason = reason\<rparr>);
          unknown = \<lparr>v_block = c_block c, v_winner = UNKNOWN, v_inscriptionId = None,
                   v_winningSat = None, v_losingSat = None, v_reason = ''Could not determine winner''\<rparr>
      in case (blockHeight tx1Data, blockHeight tx2Data) of
           (Some h1, Some h2) \<Rightarrow>
             if h1 < h2
             then won1 (''Inscribed in block '' @ showNat h1 @ '' (before block '' @ showNat h2 @ '')'')
             else if h2 < h1
             then won2 (''Inscribed in block '' @ showNat h2 @ '' (before block '' @ showNat h1 @ '')'')
             else (case (blockPosition tx1Data, blockPosition tx2Data) of
                     (Some p1, Some p2) \<Rightarrow>
                       if p1 < p2
                       then won1 (''Same block '' @ showNat h1 @ '', tx position '' @ showNat p1
                                  @ '' before '' @ showNat p2)
                       else if p2 < p1
                       then won2 (''Same block '' @ showNat h2 @ '', tx position '' @ showNat p2
                                  @ '' before '' @ showNat p1)
                       else unknown
                   | other \<Rightarrow> unknown)
         | (None, Some h2) \<Rightarrow> won2 ''Repo1 tx not confirmed''
         | (Some h1, None) \<Rightarrow> won1 ''Repo2 tx not confirmed''
         | (None, None) \<Rightarrow> unknown)"

text \<open>
  Step 7 of \<^verbatim>\<open>resolveIdenticalInscriptionConflict\<close>, from the two ledger positions
  on: the side with the correct sat against the inscription found on the remaining sat.
\<close>

definition decideIdentical ::
  "conflict \<Rightarrow> winner \<Rightarrow> string \<Rightarrow> string \<Rightarrow> string \<Rightarrow> ledger_position \<Rightarrow> ledger_position \<Rightarrow> verdict" where
  "decideIdentical c correctRepo correctInscriptionId remainingInscriptionId actualSat
       correctTxData remainingTxData =
     (let correct = (\<lambda>reason. \<lparr>v_block = c_block c, v_winner = correctRepo,
                      v_inscriptionId = Some correctInscriptionId,
                      v_winningSat = None, v_losingSat = None, v_reason = reason\<rparr>);
          remaining = (\<lambda>reason. \<lparr>v_block = c_block c, v_winner = otherRepo correctRepo,
                      v_inscriptionId = Some remainingInscriptionId,
                      v_winningSat = None, v_losingSat = None, v_reason = reason\<rparr>);
          fallback = correct (''Correct sat '' @ actualSat @ '', could not determine remaining inscription timing'')
      in case (blockHeight correctTxData, blockHeight remainingTxData) of
           (Some hc, Some hr) \<Rightarrow>
             if hc < hr
             then correct (''Correct sat '' @ actualSat @ '', inscribed in block '' @ showNat hc
                           @ '' (before '' @ showNat hr @ '')'')
             else if hr < hc
             then remaining (''Wrong sat claim, but inscribed earlier (block '' @ showNat hr
                             @ '' before '' @ showNat hc @ '')'')
             else (case (blockPosition correctTxData, blockPosition remainingTxData) of
                     (Some pc, Some pr) \<Rightarrow>
                       if pc < pr
                       then correct (''Correct sat '' @ actualSat @ '', same block '' @ showNat hc
                                     @ '', tx position '' @ showNat pc @ '' before '' @ showNat pr)
                       else if pr < pc
                       then remaining (''Wrong sat claim, but tx position '' @ showNat pr @ '' before ''
                                       @ showNat pc @ '' in block '' @ showNat hr)
                       else fallback
                   | other \<Rightarrow> fallback)
         | other \<Rightarrow> fallback)"

text \<open>
  \<^verbatim>\<open>getInscriptionSatoshi\<close> and \<^verbatim>\<open>getInscriptionBySat\<close>: the lookup at ordinals.com is
  an event of the trace, its result is the world's.
\<close>

definition getInscriptionSatoshi :: "world \<Rightarrow> string \<Rightarrow> resolver \<Rightarrow> string option \<times> resolver" where
  "getInscriptionSatoshi w inscriptionId s =
     (inscriptionSatoshi w (trace s) inscriptionId,
      s\<lparr>trace := trace s @ [Sent Ordinals (''https://ordinals.com/inscription/'' @ inscriptionId) False]\<rparr>)"

definition getInscriptionBySat :: "world \<Rightarrow> nat \<Rightarrow> nat \<Rightarrow> resolver \<Rightarrow> string option \<times> resolver" where
  "getInscriptionBySat w satNumber bitmapBlock s =
     (inscriptionBySat w (trace s) satNumber bitmapBlock,
      s\<lparr>trace := trace s @ [Sent Ordinals (''https://ordinals.com/r/sat/'' @ showNat satNumber) False]\<rparr>)"

text \<open>
  Steps 4 to 7 of \<^verbatim>\<open>resolveIdenticalInscriptionConflict\<close>, once the side with the
  correct sat is known: look for a bitmap inscription on the remaining sat and, if there
  is one, let the ledger positions decide.
\<close>

definition validateRemainingSat ::
  "world \<Rightarrow> conflict \<Rightarrow> winner \<Rightarrow> string \<Rightarrow> nat \<Rightarrow> string \<Rightarrow> resolver \<Rightarrow> verdict \<times> resolver" where
  "validateRemainingSat w c correctRepo correctInscriptionId remainingSat actualSat s1 =
     (let correct = (\<lambda>reason. \<lparr>v_block = c_block c, v_winner = correctRepo,
                       v_inscriptionId = Some correctInscriptionId,
                       v_winningSat = None, v_losingSat = None, v_reason = reason\<rparr>);
          noInscription = correct (''Correct sat '' @ actualSat @ '', remaining sat ''
                                   @ showNat remainingSat @ '' has no valid bitmap inscription'');
          (remainingFound, s2) = getInscriptionBySat w remainingSat (c_block c) s1
      in case remainingFound of
           None \<Rightarrow> (noInscription, s2)
         | Some remainingInscriptionId \<Rightarrow>
             if remainingInscriptionId = [] then (noInscription, s2)
             else
               (case (extractTxId correctInscriptionId, extractTxId remainingInscriptionId) of
                  (Some correctTxid, Some remainingTxid) \<Rightarrow>
                    (let (correctTxData, s3) = getTxPositionInBlock w correctTxid s2;
                         (remainingTxData, s4) = getTxPositionInBlock w remainingTxid s3
                     in (decideIdentical c correctRepo correctInscriptionId
                           remainingInscriptionId actualSat correctTxData remainingTxData, s4))
                | other \<Rightarrow>
                    (correct (''Correct sat '' @ actualSat
                              @ '', invalid remaining inscription format''), s2)))"

text \<open>
  \<^verbatim>\<open>resolveIdenticalInscriptionConflict\<close>. Nothing in the body can throw but what
  the functions called catch themselves, so the \<^verbatim>\<open>catch\<close> branch of the source is
  never taken here.
\<close>

definition resolveIdenticalInscriptionConflict :: "world \<Rightarrow> conflict \<Rightarrow> resolver \<Rightarrow> verdict \<times> resolver" where
  "resolveIdenticalInscriptionConflict w c s =
     (let unknown = (\<lambda>reason. \<lparr>v_block = c_block c, v_winner = UNKNOWN, v_inscriptionId = Some (repo1Id c),
                      v_winningSat = None, v_losingSat = None, v_reason = reason\<rparr>);
          (found, s1) = getInscriptionSatoshi w (repo1Id c) s
      in case found of
           None \<Rightarrow> (unknown ''Could not determine actual satoshi'', s1)
         | Some actualSat \<Rightarrow>
             if actualSat = [] then (unknown ''Could not determine actual satoshi'', s1)
             else
               (let repo1SatMatch = (actualSat = showNat (file1Sat c));
                    repo2SatMatch = (actualSat = showNat (file2Sat c))
                in if repo1SatMatch \<and> \<not> repo2SatMatch
                   then validateRemainingSat w c REPO1 (repo1Id c) (file2Sat c) actualSat s1
                   else if repo2SatMatch \<and> \<not> repo1SatMatch
                   then validateRemainingSat w c REPO2 (repo2Id c) (file1Sat c) actualSat s1
                   else if repo1SatMatch \<and> repo2SatMatch
                   then (\<lparr>v_block = c_block c, v_winner = BOTH, v_inscriptionId = Some (repo1Id c),
                          v_winningSat = None, v_losingSat = None,
                          v_reason = ''Both agree: inscription on sat '' @ actualSat\<rparr>, s1)
                   else (unknown (''Inscription on sat '' @ actualSat @ '' (neither repo correct: ''
                                  @ showNat (file1Sat c) @ ''/'' @ showNat (file2Sat c) @ '')''), s1)))"

text \<open>\<^verbatim>\<open>resolveConflict\<close>, in the order of the source.\<close>

definition resolveConflict :: "world \<Rightarrow> conflict \<Rightarrow> resolver \<Rightarrow> verdict \<times> resolver" where
  "resolveConflict w c s =
     (let plain = (\<lambda>win ident reason. \<lparr>v_block = c_block c, v_winner = win, v_inscriptionId = ident,
                     v_winningSat = None, v_losingSat = None, v_reason = reason\<rparr>)
      in if repo1Id c = repo2Id c then resolveIdenticalInscriptionConflict w c s
         else if repo1Id c = ''ID not found'' \<and> repo2Id c = ''ID not found''
         then (plain NEITHER None ''Both IDs not found'', s)
         else if repo1Id c = ''ID not found''
         then (plain REPO2 (Some (repo2Id c)) ''Repo1 ID not found'', s)
         else if repo2Id c = ''ID not found''
         then (plain REPO1 (Some (repo1Id c)) ''Repo2 ID not found'', s)
         else (case (extractTxId (repo1Id c), extractTxId (repo2Id c)) of
                 (Some txid1, Some txid2) \<Rightarrow>
                   (let (tx1Data, s1) = getTxPositionInBlock w txid1 s;
                        (tx2Data, s2) = getTxPositionInBlock w txid2 s1
                    in (decideByPosition c tx1Data tx2Data, s2))
               | other \<Rightarrow> (plain UNKNOWN None ''Invalid inscription format'', s)))"

text \<open>The kinds of difference told apart.\<close>

fun isBlockConflict :: "difference \<Rightarrow> bool" where
  "isBlockConflict (BLOCK_CONFLICT block s1 s2) = True"
| "isBlockConflict d = False"

subsection \<open>A scenario\<close>

text \<open>
  Two inscriptions, the first confirmed in block 800000 at position 3, the second in
  block 800001 at position 0; mempool.space answers every request, the clock stands
  still, ordinals.com knows nothing.
\<close>

definition txA :: string where
  "txA = ''aaaaaaaaaaaaaaaaaaaaaaaaaaaaaaaaaaaaaaaaaaaaaaaaaaaaaaaaaaaaaaaa''"
definition txB :: string where
  "txB = ''bbbbbbbbbbbbbbbbbbbbbbbbbbbbbbbbbbbbbbbbbbbbbbbbbbbbbbbbbbbbbbbb''"

definition ledger_world :: world where
  "ledger_world =
     \<lparr>respond = (\<lambda>tr a url auth.
         if url = ''https://mempool.space/api/tx/'' @ txA
         then Http 200 (Inr (TxObject (Some \<lparr>block_height = Some 800000, block_hash = Some ''hashA''\<rparr>)))
         else if url = ''https://mempool.space/api/tx/'' @ txB
         then Http 200 (Inr (TxObject (Some \<lparr>block_height = Some 800001, block_hash = Some ''hashB''\<rparr>)))
         else if url = ''https://mempool.space/api/block/hashA/txids''
         then Http 200 (Inr (TxidArray [''c0'', ''c1'', ''c2'', txA]))
         else if url = ''https://mempool.space/api/block/hashB/txids''
         then Http 200 (Inr (TxidArray [txB]))
         else NetworkError ''ENOTFOUND''),
      clock = (\<lambda>tr. 0),
      credentials = False,
      inscriptionSatoshi = (\<lambda>tr i. None),
      inscriptionBySat = (\<lambda>tr sat b. None)\<rparr>"

definition conflictAB :: conflict where
  "conflictAB = \<lparr>c_block = 5, repo1Id = txA @ ''i0'', repo2Id = txB @ ''i0'', file1Sat = 100, file2Sat = 200\<rparr>"

definition conflictNF :: conflict where
  "conflictNF = \<lparr>c_block = 5, repo1Id = ''ID not found'', repo2Id = ''ID not found'',
                  file1Sat = 100, file2Sat = 200\<rparr>"

section \<open>Duplicate pipeline: the report between the two stages\<close>

text \<open>
  The loop of \<^verbatim>\<open>scanAllFiles\<close> in duplicate-validator.mjs: the registry files in the
  order of the sorted listing, each with the entries read from it, all validated into
  the one \<^verbatim>\<open>results\<close> object.
\<close>

definition scanAllFiles :: "(string \<times> entry list) list \<Rightarrow> validator_results" where
  "scanAllFiles files =
     foldl (\<lambda>r (filename, entries). validateEntries entries filename r) initial_results files"

text \<open>
  The lines of the report that \<^verbatim>\<open>generateReport\<close> writes in its section on duplicate
  blocks: a header \<^verbatim>\<open>Block ${block}:\<close> for every key of \<^verbatim>\<open>duplicateBlocks\<close> and under it a
  line \<^verbatim>\<open>${idx + 1}. File: ${dup.file}, Sat: ${dup.sat}\<close> for every occurrence recorded
  for that key. The rest of the report (summary, missing blocks, invalid entries,
  duplicate sats, whose lines read \<^verbatim>\<open>Sat ${sat}:\<close> and \<^verbatim>\<open>File: ..., Block: ${dup.block}\<close>)
  holds no text of the form \<^verbatim>\<open>Block <digits>:\<close> or \<^verbatim>\<open>Sat: <digits>\<close> and is left out; so
  are the file names, which have the form \<^verbatim>\<open>sat_....json\<close>.
\<close>

datatype report_line = BlockLine jsval | DuplicateLine string jsval

text \<open>
  The comparator \<^verbatim>\<open>(a, b) => a[0] - b[0]\<close> on the keys. The registry holds numbers;
  with an operand that is not a number the model gives 0, as the sort reads the
  \<^verbatim>\<open>NaN\<close> that the subtraction gives then.
\<close>

fun jsMinus :: "jsval \<Rightarrow> jsval \<Rightarrow> int" where
  "jsMinus (JNum a) (JNum b) = a - b"
| "jsMinus a b = 0"

text \<open>
  \<^verbatim>\<open>Array.from(this.results.duplicateBlocks.entries())\<close>, the keys of the \<^verbatim>\<open>Map\<close> being
  given in their order of insertion.
\<close>

definition duplicateBlocksEntries ::
  "validator_results \<Rightarrow> jsval list \<Rightarrow> (jsval \<times> duplicate_block list) list" where
  "duplicateBlocksEntries r keys =
     map (\<lambda>block. (block, case duplicateBlocks r block of Some duplicates \<Rightarrow> duplicates | None \<Rightarrow> [])) keys"

definition generateReport :: "(jsval \<times> duplicate_block list) list \<Rightarrow> report_line list" where
  "generateReport entries =
     (let sortedBlocks = arraySort (\<lambda>a b. jsMinus (fst a) (fst b)) entries
      in concat (map (\<lambda>(block, duplicates).
                        BlockLine block #
                        map (\<lambda>dup. DuplicateLine (db_file dup) (db_sat dup)) duplicates)
                   sortedBlocks))"

text \<open>
  What the pattern \<^verbatim>\<open>(\d+)\<close> and \<^verbatim>\<open>parseInt\<close> read where a value was printed: a number
  that is not negative prints as its digits; a negative number prints with a sign, which
  the pattern does not match. Values that are not numbers are not followed further.
\<close>

fun printedDigits :: "jsval \<Rightarrow> nat option" where
  "printedDigits (JNum n) = (if 0 \<le> n then Some (nat n) else None)"
| "printedDigits v = None"

text \<open>A match of \<^verbatim>\<open>/Block (\d+):/\<close> and a match of \<^verbatim>\<open>/Sat: (\d+)/\<close> in a line.\<close>

fun blockHeightMatch :: "report_line \<Rightarrow> nat option" where
  "blockHeightMatch (BlockLine block) = printedDigits block"
| "blockHeightMatch (DuplicateLine file sat) = None"

fun satMatch :: "report_line \<Rightarrow> nat option" where
  "satMatch (DuplicateLine file sat) = printedDigits sat"
| "satMatch (BlockLine block) = None"

text \<open>
  \<^verbatim>\<open>reportContent.match(/Block (\d+):([\s\S]*?)(?=Block \d+:|$)/g)\<close>: every match starts
  at a header and runs up to the next header or to the end of the report; what stands
  in front of the first header belongs to no match.
\<close>

function blockMatches :: "report_line list \<Rightarrow> report_line list list" where
  "blockMatches [] = []"
| "blockMatches (l # ls) =
     (if blockHeightMatch l \<noteq> None
      then (l # takeWhile (\<lambda>x. blockHeightMatch x = None) ls)
             # blockMatches (dropWhile (\<lambda>x. blockHeightMatch x = None) ls)
      else blockMatches ls)"
  by pat_completeness auto
termination
  by (relation "measure length") (auto simp add: length_dropWhile_le less_Suc_eq_le)

text \<open>
  Assignment to a property of an object whose keys are block heights:
  \<^verbatim>\<open>Object.entries\<close> lists such keys in ascending order, a key that is present takes the
  new value.
\<close>

fun objectSet :: "(nat \<times> 'v) list \<Rightarrow> nat \<Rightarrow> 'v \<Rightarrow> (nat \<times> 'v) list" where
  "objectSet [] k v = [(k, v)]"
| "objectSet ((k', v') # m) k v =
     (if k = k' then (k, v) # m
      else if k < k' then (k, v) # (k', v') # m
      else (k', v') # objectSet m k v)"

text \<open>\<^verbatim>\<open>parseDuplicateReport\<close>; the result is given as \<^verbatim>\<open>Object.entries\<close> lists it.\<close>

definition parseDuplicateReport :: "report_line list \<Rightarrow> (nat \<times> nat list) list" where
  "parseDuplicateReport reportContent =
     foldl (\<lambda>duplicates blockMatch.
              (let blockHeight = the (blockHeightMatch (hd blockMatch));
                   sats = List.map_filter satMatch blockMatch
               in if length sats > 1 then objectSet duplicates blockHeight sats else duplicates))
       [] (blockMatches reportContent)"

text \<open>
  The competition stage as \<^verbatim>\<open>main\<close> of duplicate-competition.mjs runs it on the report
  of the validator and on the index \<^verbatim>\<open>loadRegistryIndex\<close> has built.
\<close>

definition competitionStage ::
  "report_line list \<Rightarrow> (nat \<rightharpoonup> nat) \<Rightarrow> competition_results" where
  "competitionStage reportContent blockToSat =
     resolveCompetition (parseDuplicateReport reportContent) blockToSat"




section \<open>Verified properties\<close>

subsection \<open>Competition stage\<close>


lemma loop_unresolved_mono:
  "set (unresolved r) \<subseteq> set (unresolved (resolveCompetition_loop m ds r))"
  by (induction m ds r rule: resolveCompetition_loop.induct) (auto split: option.splits simp: Let_def)

lemma loop_unresolved_mem:
  "(b, sats) \<in> set ds \<Longrightarrow> m b = None \<Longrightarrow>
   \<lparr>ub_block = b, ub_duplicateSats = sats\<rparr> \<in> set (unresolved (resolveCompetition_loop m ds r))"
proof (induction ds arbitrary: r)
  case Nil then show ?case by simp
next
  case (Cons d rest)
  obtain blockNum ss where d: "d = (blockNum, ss)" by (cases d)
  show ?case
  proof (cases "(b, sats) = (blockNum, ss)")
    case True
    with Cons.prems have none: "m blockNum = None" by simp
    let ?r' = "r\<lparr>unresolved := unresolved r @ [\<lparr>ub_block = blockNum, ub_duplicateSats = ss\<rparr>]\<rparr>"
    have "\<lparr>ub_block = b, ub_duplicateSats = sats\<rparr> \<in> set (unresolved ?r')"
      using True by simp
    then have "\<lparr>ub_block = b, ub_duplicateSats = sats\<rparr> \<in> set (unresolved (resolveCompetition_loop m rest ?r'))"
      using loop_unresolved_mono[of ?r' m rest] by blast
    then show ?thesis using none d by simp
  next
    case False
    with Cons.prems d have "(b, sats) \<in> set rest" by auto
    then show ?thesis using Cons.IH Cons.prems(2) d
      by (simp split: option.splits add: Let_def)
  qed
qed

lemma loop_winners_block:
  "w \<in> set (winners (resolveCompetition_loop m ds r)) \<Longrightarrow>
   w \<in> set (winners r) \<or> m (bs_block w) \<noteq> None"
proof (induction ds arbitrary: r)
  case Nil then show ?case by simp
next
  case (Cons d rest)
  obtain blockNum ss where d: "d = (blockNum, ss)" by (cases d)
  show ?case
  proof (cases "m blockNum")
    case None
    with Cons.prems d Cons.IH[of "r\<lparr>unresolved := unresolved r @ [\<lparr>ub_block = blockNum, ub_duplicateSats = ss\<rparr>]\<rparr>"]
    show ?thesis by simp
  next
    case (Some reg)
    show ?thesis
    proof (cases "filter (\<lambda>s. s \<noteq> reg) ss = []")
      case True
      with Cons.prems d Some Cons.IH[of r] show ?thesis by (simp add: Let_def)
    next
      case False
      with Cons.prems d Some
        Cons.IH[of "r\<lparr>winners := winners r @ [\<lparr>bs_block = blockNum, bs_sat = reg\<rparr>],
                      losers := losers r @ map (\<lambda>loserSat. \<lparr>bs_block = blockNum, bs_sat = loserSat\<rparr>) (filter (\<lambda>s. s \<noteq> reg) ss)\<rparr>"]
      show ?thesis by (auto simp add: Let_def)
    qed
  qed
qed

lemma loop_losers_block:
  "l \<in> set (losers (resolveCompetition_loop m ds r)) \<Longrightarrow>
   l \<in> set (losers r) \<or> m (bs_block l) \<noteq> None"
proof (induction ds arbitrary: r)
  case Nil then show ?case by simp
next
  case (Cons d rest)
  obtain blockNum ss where d: "d = (blockNum, ss)" by (cases d)
  show ?case
  proof (cases "m blockNum")
    case None
    with Cons.prems d Cons.IH[of "r\<lparr>unresolved := unresolved r @ [\<lparr>ub_block = blockNum, ub_duplicateSats = ss\<rparr>]\<rparr>"]
    show ?thesis by simp
  next
    case (Some reg)
    show ?thesis
    proof (cases "filter (\<lambda>s. s \<noteq> reg) ss = []")
      case True
      with Cons.prems d Some Cons.IH[of r] show ?thesis by (simp add: Let_def)
    next
      case False
      with Cons.prems d Some
        Cons.IH[of "r\<lparr>winners := winners r @ [\<lparr>bs_block = blockNum, bs_sat = reg\<rparr>],
                      losers := losers r @ map (\<lambda>loserSat. \<lparr>bs_block = blockNum, bs_sat = loserSat\<rparr>) (filter (\<lambda>s. s \<noteq> reg) ss)\<rparr>"]
      show ?thesis by (auto simp add: Let_def)
    qed
  qed
qed


text \<open>
  What \<^verbatim>\<open>resolveCompetition\<close> does with a block it is given: when the index has no
  entry for the block, the block is put in the unresolved list together with the sats
  listed for it, and neither a winner nor a loser is declared for that block.
\<close>

lemma listed_block_without_index_entry:
  assumes "(b, sats) \<in> set duplicates" and "blockToSat b = None"
  shows "\<lparr>ub_block = b, ub_duplicateSats = sats\<rparr> \<in> set (unresolved (resolveCompetition duplicates blockToSat))
       \<and> (\<forall>w \<in> set (winners (resolveCompetition duplicates blockToSat)). bs_block w \<noteq> b)
       \<and> (\<forall>l \<in> set (losers (resolveCompetition duplicates blockToSat)). bs_block l \<noteq> b)"
proof -
  let ?r0 = "\<lparr>winners = [], losers = [], unresolved = []\<rparr>"
  have 1: "\<lparr>ub_block = b, ub_duplicateSats = sats\<rparr> \<in> set (unresolved (resolveCompetition_loop blockToSat duplicates ?r0))"
    using assms by (rule loop_unresolved_mem)
  have 2: "bs_block w \<noteq> b" if "w \<in> set (winners (resolveCompetition_loop blockToSat duplicates ?r0))" for w
    using loop_winners_block[OF that] assms(2) by auto
  have 3: "bs_block l \<noteq> b" if "l \<in> set (losers (resolveCompetition_loop blockToSat duplicates ?r0))" for l
    using loop_losers_block[OF that] assms(2) by auto
  show ?thesis unfolding resolveCompetition_def using 1 2 3 by blast
qed

subsection \<open>Validator stage\<close>


lemma validateEntry_falsy_block:
  "\<not> truthy (e_block e) \<Longrightarrow>
   validateEntry filename e r =
     r\<lparr>totalEntries := totalEntries r + 1,
       invalidEntries := invalidEntries r @
         [\<lparr>ie_file = filename, ie_entry = e, ie_reason = ''Missing block field''\<rparr>]\<rparr>"
  by (simp add: validateEntry_def Let_def)

lemma validateEntry_invalid_mono:
  "set (invalidEntries r) \<subseteq> set (invalidEntries (validateEntry filename e r))"
  by (auto simp add: validateEntry_def Let_def)

lemma validateEntries_invalid_mono:
  "set (invalidEntries r) \<subseteq> set (invalidEntries (validateEntries es filename r))"
proof (induction es arbitrary: r)
  case Nil then show ?case by simp
next
  case (Cons e es)
  then show ?case using validateEntry_invalid_mono[of r filename e] by fastforce
qed

lemma validateEntries_falsy_block_invalid:
  "e \<in> set es \<Longrightarrow> \<not> truthy (e_block e) \<Longrightarrow>
   \<lparr>ie_file = filename, ie_entry = e, ie_reason = ''Missing block field''\<rparr>
     \<in> set (invalidEntries (validateEntries es filename r))"
proof (induction es arbitrary: r)
  case Nil then show ?case by simp
next
  case (Cons x es)
  show ?case
  proof (cases "e = x")
    case True
    then have "\<lparr>ie_file = filename, ie_entry = e, ie_reason = ''Missing block field''\<rparr>
       \<in> set (invalidEntries (validateEntry filename x r))"
      using Cons.prems(2) by (simp add: validateEntry_falsy_block)
    then show ?thesis using validateEntries_invalid_mono[of "validateEntry filename x r" es filename] by auto
  next
    case False
    then show ?thesis using Cons by auto
  qed
qed

lemma validateEntry_uniqueBlocks:
  "uniqueBlocks (validateEntry filename e r) \<subseteq> uniqueBlocks r \<union> {b. truthy b}"
  by (auto simp add: validateEntry_def Let_def)

lemma validateEntry_dupBlocks:
  "dom (duplicateBlocks (validateEntry filename e r)) \<subseteq> dom (duplicateBlocks r) \<union> {b. truthy b}"
  by (auto simp add: validateEntry_def Let_def split: if_splits)

lemma validateEntry_dupSats_entries:
  "duplicateSats (validateEntry filename e r) s = Some ds \<Longrightarrow> d \<in> set ds \<Longrightarrow>
   (\<exists>ds0. duplicateSats r s = Some ds0 \<and> d \<in> set ds0) \<or> truthy (ds_block d)"
  by (auto simp add: validateEntry_def Let_def split: if_splits option.splits)


lemma validateEntries_uniqueBlocks:
  "uniqueBlocks (validateEntries es filename r) \<subseteq> uniqueBlocks r \<union> {b. truthy b}"
proof (induction es arbitrary: r)
  case Nil then show ?case by simp
next
  case (Cons e es)
  then show ?case using validateEntry_uniqueBlocks[of filename e r] by fastforce
qed

lemma validateEntries_dupBlocks:
  "dom (duplicateBlocks (validateEntries es filename r)) \<subseteq> dom (duplicateBlocks r) \<union> {b. truthy b}"
proof (induction es arbitrary: r)
  case Nil then show ?case by simp
next
  case (Cons e es)
  have "dom (duplicateBlocks (validateEntries es filename (validateEntry filename e r)))
        \<subseteq> dom (duplicateBlocks (validateEntry filename e r)) \<union> {b. truthy b}"
    by (rule Cons.IH)
  then show ?case using validateEntry_dupBlocks[of filename e r] by auto
qed

lemma validateEntries_dupSats_entries:
  "duplicateSats (validateEntries es filename r) s = Some ds \<Longrightarrow> d \<in> set ds \<Longrightarrow>
   (\<exists>ds0. duplicateSats r s = Some ds0 \<and> d \<in> set ds0) \<or> truthy (ds_block d)"
proof (induction es arbitrary: r)
  case Nil then show ?case by simp
next
  case (Cons e es)
  from Cons.IH[of "validateEntry filename e r"] Cons.prems
  have "(\<exists>ds0. duplicateSats (validateEntry filename e r) s = Some ds0 \<and> d \<in> set ds0) \<or> truthy (ds_block d)"
    by simp
  then show ?case using validateEntry_dupSats_entries[of filename e r s _ d] by blast
qed

lemma validateEntry_sat_zero:
  "truthy (e_block e) \<Longrightarrow> e_sat e = JNum 0 \<Longrightarrow>
   invalidEntries (validateEntry filename e r) = invalidEntries r
   \<and> JNum 0 \<in> uniqueSats (validateEntry filename e r)
   \<and> e_block e \<in> uniqueBlocks (validateEntry filename e r)"
  by (auto simp add: validateEntry_def Let_def)

lemma validateEntry_uniques_mono:
  "uniqueSats r \<subseteq> uniqueSats (validateEntry filename e r)
   \<and> uniqueBlocks r \<subseteq> uniqueBlocks (validateEntry filename e r)"
  by (auto simp add: validateEntry_def Let_def)

lemma validateEntries_uniques_mono:
  "uniqueSats r \<subseteq> uniqueSats (validateEntries es filename r)
   \<and> uniqueBlocks r \<subseteq> uniqueBlocks (validateEntries es filename r)"
proof (induction es arbitrary: r)
  case Nil then show ?case by simp
next
  case (Cons e es)
  then show ?case using validateEntry_uniques_mono[of r filename e] by fastforce
qed

lemma validateEntry_new_invalid:
  "ie \<in> set (invalidEntries (validateEntry filename x r)) \<Longrightarrow> ie \<notin> set (invalidEntries r) \<Longrightarrow>
   ie_entry ie = x \<and> (\<not> truthy (e_block x) \<or> (\<not> truthy (e_sat x) \<and> e_sat x \<noteq> JNum 0))"
  by (auto simp add: validateEntry_def Let_def split: if_splits)

lemma validateEntries_new_invalid:
  "ie \<in> set (invalidEntries (validateEntries es filename r)) \<Longrightarrow> ie \<notin> set (invalidEntries r) \<Longrightarrow>
   ie_entry ie \<in> set es \<and>
   (\<not> truthy (e_block (ie_entry ie)) \<or> (\<not> truthy (e_sat (ie_entry ie)) \<and> e_sat (ie_entry ie) \<noteq> JNum 0))"
proof (induction es arbitrary: r)
  case Nil then show ?case by simp
next
  case (Cons x es)
  show ?case
  proof (cases "ie \<in> set (invalidEntries (validateEntry filename x r))")
    case True
    then show ?thesis using validateEntry_new_invalid[OF True Cons.prems(2)] by simp
  next
    case False
    then show ?thesis using Cons.IH[of "validateEntry filename x r"] Cons.prems(1) by simp
  qed
qed

lemma validateEntries_sat_zero:
  assumes "e \<in> set es" "truthy (e_block e)" "e_sat e = JNum 0"
  shows "JNum 0 \<in> uniqueSats (validateEntries es filename r)
       \<and> e_block e \<in> uniqueBlocks (validateEntries es filename r)"
  using assms
proof (induction es arbitrary: r)
  case Nil then show ?case by simp
next
  case (Cons x es)
  show ?case
  proof (cases "e = x")
    case True
    then show ?thesis
      using validateEntry_sat_zero[of x filename r] Cons.prems(2,3)
        validateEntries_uniques_mono[of "validateEntry filename x r" es filename] by auto
  next
    case False
    then show ?thesis using Cons by auto
  qed
qed


text \<open>
  Claim C10. In the duplicate validator a record whose block field is 0 (or falsy in any
  other way) becomes an invalid entry with reason \<open>Missing block field\<close> and changes
  nothing else but the entry counter: no falsy block ever enters \<open>uniqueBlocks\<close> or the
  duplicate maps. A record with a usable block and sat field 0 is not reported invalid;
  its block and its sat 0 are tracked.
\<close>

theorem falsy_block_invalid_sat_zero_valid:
  "(\<forall>e. \<not> truthy (e_block e) \<longrightarrow>
      validateEntry filename e r =
        r\<lparr>totalEntries := totalEntries r + 1,
          invalidEntries := invalidEntries r @
            [\<lparr>ie_file = filename, ie_entry = e, ie_reason = ''Missing block field''\<rparr>]\<rparr>)
   \<and> (\<forall>e \<in> set es. \<not> truthy (e_block e) \<longrightarrow>
        \<lparr>ie_file = filename, ie_entry = e, ie_reason = ''Missing block field''\<rparr>
          \<in> set (invalidEntries (validateEntries es filename r)))
   \<and> uniqueBlocks (validateEntries es filename r) \<subseteq> uniqueBlocks r \<union> {b. truthy b}
   \<and> dom (duplicateBlocks (validateEntries es filename r)) \<subseteq> dom (duplicateBlocks r) \<union> {b. truthy b}
   \<and> (\<forall>s ds d. duplicateSats (validateEntries es filename r) s = Some ds \<and> d \<in> set ds \<longrightarrow>
        (\<exists>ds0. duplicateSats r s = Some ds0 \<and> d \<in> set ds0) \<or> truthy (ds_block d))
   \<and> (\<forall>e \<in> set es. truthy (e_block e) \<and> e_sat e = JNum 0 \<longrightarrow>
        (\<forall>ie \<in> set (invalidEntries (validateEntries es filename r)).
            ie_entry ie = e \<longrightarrow> ie \<in> set (invalidEntries r))
        \<and> JNum 0 \<in> uniqueSats (validateEntries es filename r)
        \<and> e_block e \<in> uniqueBlocks (validateEntries es filename r))"
proof (intro conjI allI ballI impI)
  fix e :: entry assume "\<not> truthy (e_block e)"
  then show "validateEntry filename e r =
        r\<lparr>totalEntries := totalEntries r + 1,
          invalidEntries := invalidEntries r @
            [\<lparr>ie_file = filename, ie_entry = e, ie_reason = ''Missing block field''\<rparr>]\<rparr>"
    by (rule validateEntry_falsy_block)
next
  fix e :: entry assume "e \<in> set es" "\<not> truthy (e_block e)"
  then show "\<lparr>ie_file = filename, ie_entry = e, ie_reason = ''Missing block field''\<rparr>
          \<in> set (invalidEntries (validateEntries es filename r))"
    by (rule validateEntries_falsy_block_invalid)
next
  show "uniqueBlocks (validateEntries es filename r) \<subseteq> uniqueBlocks r \<union> {b. truthy b}"
    by (rule validateEntries_uniqueBlocks)
next
  show "dom (duplicateBlocks (validateEntries es filename r)) \<subseteq> dom (duplicateBlocks r) \<union> {b. truthy b}"
    by (rule validateEntries_dupBlocks)
next
  fix s ds and d :: duplicate_sat
  assume "duplicateSats (validateEntries es filename r) s = Some ds \<and> d \<in> set ds"
  then show "(\<exists>ds0. duplicateSats r s = Some ds0 \<and> d \<in> set ds0) \<or> truthy (ds_block d)"
    using validateEntries_dupSats_entries by blast
next
  fix e :: entry and ie :: invalid_entry
  assume e: "e \<in> set es" "truthy (e_block e) \<and> e_sat e = JNum 0"
    and ie: "ie \<in> set (invalidEntries (validateEntries es filename r))" "ie_entry ie = e"
  show "ie \<in> set (invalidEntries r)"
  proof (rule ccontr)
    assume "ie \<notin> set (invalidEntries r)"
    from validateEntries_new_invalid[OF ie(1) this] ie(2) e(2) show False by simp
  qed
next
  fix e :: entry assume "e \<in> set es" "truthy (e_block e) \<and> e_sat e = JNum 0"
  then show "JNum 0 \<in> uniqueSats (validateEntries es filename r)"
    using validateEntries_sat_zero by blast
next
  fix e :: entry assume "e \<in> set es" "truthy (e_block e) \<and> e_sat e = JNum 0"
  then show "e_block e \<in> uniqueBlocks (validateEntries es filename r)"
    using validateEntries_sat_zero by blast
qed


theorem falsy_block_invalid_sat_zero_valid_witness:
  "\<lparr>ie_file = ''sat_0.json'', ie_entry = \<lparr>e_block = JNum 0, e_sat = JNum 7\<rparr>,
     ie_reason = ''Missing block field''\<rparr>
     \<in> set (invalidEntries (validateEntries
           [\<lparr>e_block = JNum 0, e_sat = JNum 7\<rparr>, \<lparr>e_block = JNum 3, e_sat = JNum 0\<rparr>]
           ''sat_0.json'' initial_results))
   \<and> JNum 0 \<notin> uniqueBlocks (validateEntries
           [\<lparr>e_block = JNum 0, e_sat = JNum 7\<rparr>, \<lparr>e_block = JNum 3, e_sat = JNum 0\<rparr>]
           ''sat_0.json'' initial_results)
   \<and> JNum 0 \<in> uniqueSats (validateEntries
           [\<lparr>e_block = JNum 0, e_sat = JNum 7\<rparr>, \<lparr>e_block = JNum 3, e_sat = JNum 0\<rparr>]
           ''sat_0.json'' initial_results)
   \<and> JNum 3 \<in> uniqueBlocks (validateEntries
           [\<lparr>e_block = JNum 0, e_sat = JNum 7\<rparr>, \<lparr>e_block = JNum 3, e_sat = JNum 0\<rparr>]
           ''sat_0.json'' initial_results)"
  using falsy_block_invalid_sat_zero_valid
          [of "''sat_0.json''" initial_results
              "[\<lparr>e_block = JNum 0, e_sat = JNum 7\<rparr>, \<lparr>e_block = JNum 3, e_sat = JNum 0\<rparr>]"]
  by (auto simp add: initial_results_def)

subsection \<open>Batch reconciler\<close>

lemma module_scope_options: "validator_module_scope ''options'' = None"
  by (simp add: validator_module_scope_def)

text \<open>
  Claim C9. Constructing a \<open>RegistryComparator\<close> from \<^verbatim>\<open>src/validator.mjs\<close> throws for
  every argument list: the constructor declares no parameter, the module declares no
  \<open>options\<close>, and (the one assumption) the global object has no property of that name,
  so reading \<^verbatim>\<open>options.suppressFileOutput\<close> is a \<^verbatim>\<open>ReferenceError\<close>.
\<close>

theorem constructor_always_throws:
  assumes "globals ''options'' = None"
  shows "RegistryComparator_constructor globals args = Inl (ReferenceError ''options'')"
  using assms by (simp add: RegistryComparator_constructor_def module_scope_options)

theorem constructor_always_throws_witness:
  "Map.empty ''options'' = (None :: binding option) \<and>
   RegistryComparator_constructor Map.empty [AObject [(''suppressFileOutput'', JBool True)]]
     = Inl (ReferenceError ''options'')"
  using constructor_always_throws[of Map.empty "[AObject [(''suppressFileOutput'', JBool True)]]"] by simp

text \<open>
  The constructor of the sibling file, which declares the parameter with a default,
  succeeds on an empty argument list.
\<close>

lemma satcomp_constructor_succeeds:
  "\<exists>rc. RegistryComparator_constructor_satcomp globals [] = Inr rc"
  by (simp add: RegistryComparator_constructor_satcomp_def)














subsection \<open>Diff engine\<close>

lemmas cf_defs = compareFiles_def buildBlockToSat_def newSet_def setAdd_def classifySat_def
  checkBlock_def arraySort_def compareDifferences_def new_SatComparator_def Let_def


lemma foldl_setAdd_distinct: "distinct (acc @ xs) \<Longrightarrow> foldl setAdd acc xs = acc @ xs"
  by (induction xs arbitrary: acc) (auto simp add: setAdd_def)

lemma foldl_setAdd_subset: "set xs \<subseteq> set acc \<Longrightarrow> foldl setAdd acc xs = acc"
  by (induction xs arbitrary: acc) (auto simp add: setAdd_def)

lemma newSet_distinct: "distinct xs \<Longrightarrow> newSet xs = xs"
  using foldl_setAdd_distinct[of "[]" xs] by (simp add: newSet_def)

lemma newSet_twice: "distinct xs \<Longrightarrow> newSet (xs @ xs) = xs"
proof -
  assume d: "distinct xs"
  have "foldl setAdd [] (xs @ xs) = foldl setAdd (foldl setAdd [] xs) xs" by simp
  also have "\<dots> = foldl setAdd xs xs" using foldl_setAdd_distinct[of "[]" xs] d by simp
  also have "\<dots> = xs" by (rule foldl_setAdd_subset) simp
  finally show ?thesis by (simp add: newSet_def)
qed

lemma set_newSet_aux: "set (foldl setAdd acc xs) = set acc \<union> set xs"
  by (induction xs arbitrary: acc) (auto simp add: setAdd_def)

lemma set_newSet: "set (newSet xs) = set xs"
  by (simp add: newSet_def set_newSet_aux)


lemma mset_binaryInsert: "mset (binaryInsert cmp front pivot) = add_mset pivot (mset front)"
proof -
  let ?k = "binarySearch cmp pivot front 0 (length front)"
  have "mset (take ?k front) + mset (drop ?k front) = mset front"
    by (metis append_take_drop_id mset_append)
  then show ?thesis by (simp add: binaryInsert_def Let_def)
qed

lemma mset_foldl_binaryInsert: "mset (foldl (binaryInsert cmp) acc xs) = mset acc + mset xs"
  by (induction xs arbitrary: acc) (simp_all add: mset_binaryInsert)

lemma mset_take_drop: "mset (take n xs) + mset (drop n xs) = mset xs"
  by (metis append_take_drop_id mset_append)

lemma mset_arraySort: "mset (arraySort cmp xs) = mset xs"
proof (cases xs)
  case Nil then show ?thesis by (simp add: arraySort_def)
next
  case (Cons x0 ys)
  show ?thesis
  proof (cases ys)
    case Nil then show ?thesis using Cons by (simp add: arraySort_def)
  next
    case c2: (Cons x1 rest)
    let ?n = "2 + runLength cmp (cmp x1 x0 < 0) x1 rest"
    have "arraySort cmp xs
            = foldl (binaryInsert cmp) (if cmp x1 x0 < 0 then rev (take ?n xs) else take ?n xs) (drop ?n xs)"
      unfolding arraySort_def Let_def by (simp add: Cons c2)
    then have "mset (arraySort cmp xs)
            = mset (if cmp x1 x0 < 0 then rev (take ?n xs) else take ?n xs) + mset (drop ?n xs)"
      by (simp only: mset_foldl_binaryInsert)
    also have "\<dots> = mset (take ?n xs) + mset (drop ?n xs)" by simp
    also have "\<dots> = mset xs" by (rule mset_take_drop)
    finally show ?thesis .
  qed
qed

lemma arraySort_Nil: "arraySort cmp [] = []"
  by (simp add: arraySort_def)


lemma classifySat_data [simp]:
  "file1Data (classifySat c sat) = file1Data c" "file2Data (classifySat c sat) = file2Data c"
  by (auto simp add: classifySat_def split: option.splits)

lemma sat_loop_file1_only:
  "\<forall>s \<in> set ks. map_of (file1Data c) s \<noteq> None \<and> map_of (file2Data c) s = None \<Longrightarrow>
   foldl classifySat c ks =
     c\<lparr>differences := differences c @ map (\<lambda>s. FILE1_ONLY s (the (map_of (file1Data c) s))) ks,
       file1Only := file1Only c + length ks\<rparr>"
proof (induction ks arbitrary: c)
  case Nil then show ?case by simp
next
  case (Cons k ks)
  from Cons.prems obtain b where b: "map_of (file1Data c) k = Some b" "map_of (file2Data c) k = None"
    by auto
  let ?c1 = "c\<lparr>differences := differences c @ [FILE1_ONLY k b], file1Only := file1Only c + 1\<rparr>"
  have step: "classifySat c k = ?c1" using b by (simp add: classifySat_def)
  have "\<forall>s \<in> set ks. map_of (file1Data ?c1) s \<noteq> None \<and> map_of (file2Data ?c1) s = None"
    using Cons.prems by simp
  from Cons.IH[OF this] show ?case using step b by simp
qed

lemma sat_loop_file2_only:
  "\<forall>s \<in> set ks. map_of (file1Data c) s = None \<and> map_of (file2Data c) s \<noteq> None \<Longrightarrow>
   foldl classifySat c ks =
     c\<lparr>differences := differences c @ map (\<lambda>s. FILE2_ONLY s (the (map_of (file2Data c) s))) ks,
       file2Only := file2Only c + length ks\<rparr>"
proof (induction ks arbitrary: c)
  case Nil then show ?case by simp
next
  case (Cons k ks)
  from Cons.prems obtain b where b: "map_of (file1Data c) k = None" "map_of (file2Data c) k = Some b"
    by auto
  let ?c1 = "c\<lparr>differences := differences c @ [FILE2_ONLY k b], file2Only := file2Only c + 1\<rparr>"
  have step: "classifySat c k = ?c1" using b by (simp add: classifySat_def)
  have "\<forall>s \<in> set ks. map_of (file1Data ?c1) s = None \<and> map_of (file2Data ?c1) s \<noteq> None"
    using Cons.prems by simp
  from Cons.IH[OF this] show ?case using step b by simp
qed

lemma sat_loop_match:
  "file2Data c = file1Data c \<Longrightarrow> \<forall>s \<in> set ks. map_of (file1Data c) s \<noteq> None \<Longrightarrow>
   foldl classifySat c ks = c\<lparr>matches := matches c + length ks\<rparr>"
proof (induction ks arbitrary: c)
  case Nil then show ?case by simp
next
  case (Cons k ks)
  from Cons.prems obtain b where b: "map_of (file1Data c) k = Some b" by auto
  let ?c1 = "c\<lparr>matches := matches c + 1\<rparr>"
  have step: "classifySat c k = ?c1" using b Cons.prems(1) by (simp add: classifySat_def)
  have "file2Data ?c1 = file1Data ?c1" "\<forall>s \<in> set ks. map_of (file1Data ?c1) s \<noteq> None"
    using Cons.prems by simp_all
  from Cons.IH[OF this] show ?case using step by simp
qed

lemma map_of_keys_distinct:
  "distinct (map fst A) \<Longrightarrow> map (\<lambda>s. f s (the (map_of A s))) (map fst A) = map (\<lambda>(s, b). f s b) A"
proof (induction A)
  case Nil then show ?case by simp
next
  case (Cons a A)
  obtain s b where a: "a = (s, b)" by (cases a)
  have "map (\<lambda>k. f k (the (map_of (a # A) k))) (map fst A) = map (\<lambda>k. f k (the (map_of A k))) (map fst A)"
    using Cons.prems a by (intro map_cong) auto
  then show ?case using Cons a by simp
qed


lemma checkBlock_same: "checkBlock m m c b = c"
  by (simp add: checkBlock_def)

lemma block_loop_same: "foldl (checkBlock m m) c bs = c"
  by (induction bs) (simp_all add: checkBlock_same)

lemma block_loop_stats:
  shows "matches (foldl (checkBlock m1 m2) c bs) = matches c"
    and "conflicts (foldl (checkBlock m1 m2) c bs) = conflicts c"
    and "file1Only (foldl (checkBlock m1 m2) c bs) = file1Only c"
    and "file2Only (foldl (checkBlock m1 m2) c bs) = file2Only c"
    and "filter (\<lambda>d. \<not> isBlockConflict d) (differences (foldl (checkBlock m1 m2) c bs))
       = filter (\<lambda>d. \<not> isBlockConflict d) (differences c)"
  by (induction bs arbitrary: c) (simp_all add: checkBlock_def)

lemma block_loop_none:
  "\<forall>b \<in> set bs. map_of m1 b = None \<or> map_of m2 b = None \<Longrightarrow> foldl (checkBlock m1 m2) c bs = c"
  by (induction bs arbitrary: c) (auto simp add: checkBlock_def)

lemma keys_mapSet: "fst ` set (mapSet m k v) = insert k (fst ` set m)"
  by (induction m k v rule: mapSet.induct) auto

lemma keys_foldl_mapSet:
  "fst ` set (foldl (\<lambda>m (sat, block). mapSet m block sat) m0 xs) = fst ` set m0 \<union> snd ` set xs"
proof (induction xs arbitrary: m0)
  case Nil then show ?case by simp
next
  case (Cons x xs)
  obtain sat block where x: "x = (sat, block)" by (cases x)
  have "fst ` set (foldl (\<lambda>m (sat, block). mapSet m block sat) (mapSet m0 block sat) xs)
        = fst ` set (mapSet m0 block sat) \<union> snd ` set xs" by (rule Cons.IH)
  then show ?case unfolding x by (simp add: keys_mapSet)
qed

lemma keys_buildBlockToSat: "fst ` set (buildBlockToSat A) = snd ` set A"
  by (simp add: buildBlockToSat_def keys_foldl_mapSet)

lemma map_of_buildBlockToSat_None: "b \<notin> snd ` set A \<Longrightarrow> map_of (buildBlockToSat A) b = None"
  by (simp add: map_of_eq_None_iff keys_buildBlockToSat)


lemma sat_loop_disjoint:
  assumes dA: "distinct (map fst A)" and dB: "distinct (map fst B)"
    and disj: "set (map fst A) \<inter> set (map fst B) = {}"
    and c: "file1Data c = A" "file2Data c = B"
  shows "foldl classifySat c (newSet (map fst A @ map fst B)) =
     c\<lparr>differences := differences c @ map (\<lambda>(s, b). FILE1_ONLY s b) A @ map (\<lambda>(s, b). FILE2_ONLY s b) B,
       file1Only := file1Only c + length A,
       file2Only := file2Only c + length B\<rparr>"
proof -
  have keys: "newSet (map fst A @ map fst B) = map fst A @ map fst B"
    using dA dB disj by (intro newSet_distinct) auto
  have inA: "\<forall>s \<in> set (map fst A). map_of (file1Data c) s \<noteq> None \<and> map_of (file2Data c) s = None"
    using disj c by (auto simp add: map_of_eq_None_iff)
  let ?c1 = "c\<lparr>differences := differences c @ map (\<lambda>s. FILE1_ONLY s (the (map_of (file1Data c) s))) (map fst A),
       file1Only := file1Only c + length (map fst A)\<rparr>"
  have 1: "foldl classifySat c (map fst A) = ?c1" using inA by (rule sat_loop_file1_only)
  have inB: "\<forall>s \<in> set (map fst B). map_of (file1Data ?c1) s = None \<and> map_of (file2Data ?c1) s \<noteq> None"
    using disj c by (auto simp add: map_of_eq_None_iff)
  have 2: "foldl classifySat ?c1 (map fst B) =
      ?c1\<lparr>differences := differences ?c1 @ map (\<lambda>s. FILE2_ONLY s (the (map_of (file2Data ?c1) s))) (map fst B),
       file2Only := file2Only ?c1 + length (map fst B)\<rparr>"
    using inB by (rule sat_loop_file2_only)
  have mA: "map (\<lambda>s. FILE1_ONLY s (the (map_of A s))) (map fst A) = map (\<lambda>(s, b). FILE1_ONLY s b) A"
    using dA by (rule map_of_keys_distinct)
  have mB: "map (\<lambda>s. FILE2_ONLY s (the (map_of B s))) (map fst B) = map (\<lambda>(s, b). FILE2_ONLY s b) B"
    using dB by (rule map_of_keys_distinct)
  have "foldl classifySat c (map fst A @ map fst B) = foldl classifySat (foldl classifySat c (map fst A)) (map fst B)"
    by simp
  also have "\<dots> = ?c1\<lparr>differences := differences ?c1 @ map (\<lambda>s. FILE2_ONLY s (the (map_of (file2Data ?c1) s))) (map fst B),
       file2Only := file2Only ?c1 + length (map fst B)\<rparr>"
    unfolding 1 by (rule 2)
  also have "\<dots> = c\<lparr>differences := differences c @ map (\<lambda>(s, b). FILE1_ONLY s b) A @ map (\<lambda>(s, b). FILE2_ONLY s b) B,
       file1Only := file1Only c + length A,
       file2Only := file2Only c + length B\<rparr>"
    using mA mB c by simp
  finally show ?thesis unfolding keys .
qed

lemma only_entries_not_block_conflict:
  "filter (\<lambda>d. \<not> isBlockConflict d) (map (\<lambda>(s, b). FILE1_ONLY s b) A @ map (\<lambda>(s, b). FILE2_ONLY s b) B)
     = map (\<lambda>(s, b). FILE1_ONLY s b) A @ map (\<lambda>(s, b). FILE2_ONLY s b) B"
  by (intro filter_True) auto


lemma block_loop_differences:
  "differences (foldl (checkBlock m1 m2) c bs)
     = differences c @
       map (\<lambda>b. BLOCK_CONFLICT b (the (map_of m1 b)) (the (map_of m2 b)))
         (filter (\<lambda>b. present (map_of m1 b) \<and> present (map_of m2 b) \<and> map_of m1 b \<noteq> map_of m2 b) bs)"
  by (induction bs arbitrary: c) (simp_all add: checkBlock_def)

lemma map_of_mapSet: "map_of (mapSet m k v) = (map_of m)(k \<mapsto> v)"
  by (induction m k v rule: mapSet.induct) auto

lemma map_of_foldl_mapSet:
  "map_of (foldl (\<lambda>m (sat, block). mapSet m block sat) m0 xs)
     = map_of m0 ++ map_of (rev (map (\<lambda>(sat, block). (block, sat)) xs))"
proof (induction xs arbitrary: m0)
  case Nil then show ?case by simp
next
  case (Cons x xs)
  obtain sat block where x: "x = (sat, block)" by (cases x)
  have "map_of (foldl (\<lambda>m (sat, block). mapSet m block sat) (mapSet m0 block sat) xs)
        = map_of (mapSet m0 block sat) ++ map_of (rev (map (\<lambda>(sat, block). (block, sat)) xs))"
    by (rule Cons.IH)
  then show ?case unfolding x by (simp add: map_of_mapSet map_add_def fun_eq_iff split: option.splits)
qed

lemma map_of_buildBlockToSat:
  "map_of (buildBlockToSat A) = map_of (rev (map (\<lambda>(sat, block). (block, sat)) A))"
  by (simp add: buildBlockToSat_def map_of_foldl_mapSet)

lemma buildBlockToSat_value:
  assumes "map_of (buildBlockToSat A) b = Some s" shows "s \<in> fst ` set A"
proof -
  have "(b, s) \<in> set (rev (map (\<lambda>(sat, block). (block, sat)) A))"
    using assms unfolding map_of_buildBlockToSat by (rule map_of_SomeD)
  then show ?thesis by force
qed

lemma distinct_foldl_setAdd: "distinct acc \<Longrightarrow> distinct (foldl setAdd acc xs)"
  by (induction xs arbitrary: acc) (auto simp add: setAdd_def)

lemma distinct_newSet: "distinct (newSet xs)"
  by (simp add: newSet_def distinct_foldl_setAdd)

lemma count_block_conflicts:
  "distinct xs \<Longrightarrow>
   count_list (map (\<lambda>b. BLOCK_CONFLICT b (g b) (h b)) xs) (BLOCK_CONFLICT b s1 s2)
     = (if b \<in> set xs \<and> g b = s1 \<and> h b = s2 then 1 else 0)"
  by (induction xs) auto

lemma count_only_entries:
  "count_list (map (\<lambda>(s, b). FILE1_ONLY s b) A @ map (\<lambda>(s, b). FILE2_ONLY s b) B) (BLOCK_CONFLICT b s1 s2) = 0"
  by (induction A) (auto simp add: count_list_0_iff)

lemma count_list_arraySort: "count_list (arraySort cmp xs) x = count_list xs x"
proof -
  have "count (mset (arraySort cmp xs)) x = count (mset xs) x" by (simp add: mset_arraySort)
  then show ?thesis by (simp only: count_mset)
qed


lemma compareFiles_alt:
  "compareFiles d1 d2 c0 =
     (foldl (checkBlock (buildBlockToSat d1) (buildBlockToSat d2))
        (foldl classifySat
           (c0\<lparr>file1Data := d1, file2Data := d2, file1Count := length d1, file2Count := length d2\<rparr>)
           (newSet (map fst d1 @ map fst d2)))
        (newSet (map fst (buildBlockToSat d1) @ map fst (buildBlockToSat d2))))
     \<lparr>differences := arraySort compareDifferences
        (differences (foldl (checkBlock (buildBlockToSat d1) (buildBlockToSat d2))
        (foldl classifySat
           (c0\<lparr>file1Data := d1, file2Data := d2, file1Count := length d1, file2Count := length d2\<rparr>)
           (newSet (map fst d1 @ map fst d2)))
        (newSet (map fst (buildBlockToSat d1) @ map fst (buildBlockToSat d2)))))\<rparr>"
  by (simp only: compareFiles_def Let_def)

lemma disjoint_keys_sat_pass:
  assumes dA: "distinct (map fst A)" and dB: "distinct (map fst B)"
    and disj: "set (map fst A) \<inter> set (map fst B) = {}"
  shows "mset (filter (\<lambda>d. \<not> isBlockConflict d) (differences (compareFiles A B new_SatComparator)))
           = mset (map (\<lambda>(s, b). FILE1_ONLY s b) A) + mset (map (\<lambda>(s, b). FILE2_ONLY s b) B)
       \<and> matches (compareFiles A B new_SatComparator) = 0
       \<and> conflicts (compareFiles A B new_SatComparator) = 0
       \<and> file1Only (compareFiles A B new_SatComparator) = length A
       \<and> file2Only (compareFiles A B new_SatComparator) = length B
       \<and> (snd ` set A \<inter> snd ` set B = {} \<longrightarrow>
            filter isBlockConflict (differences (compareFiles A B new_SatComparator)) = []
            \<and> length (differences (compareFiles A B new_SatComparator)) = length A + length B)"
proof -
  let ?c1 = "new_SatComparator\<lparr>file1Data := A, file2Data := B,
                  file1Count := length A, file2Count := length B\<rparr>"
  let ?only = "map (\<lambda>(s, b). FILE1_ONLY s b) A @ map (\<lambda>(s, b). FILE2_ONLY s b) B"
  let ?c2 = "?c1\<lparr>differences := differences ?c1 @ ?only,
       file1Only := file1Only ?c1 + length A, file2Only := file2Only ?c1 + length B\<rparr>"
  let ?m1 = "buildBlockToSat A" and ?m2 = "buildBlockToSat B"
  let ?bs = "newSet (map fst ?m1 @ map fst ?m2)"
  let ?c3 = "foldl (checkBlock ?m1 ?m2) ?c2 ?bs"
  have c2: "foldl classifySat ?c1 (newSet (map fst A @ map fst B)) = ?c2"
    by (rule sat_loop_disjoint[OF dA dB disj]) simp_all
  have r: "compareFiles A B new_SatComparator
      = ?c3\<lparr>differences := arraySort compareDifferences (differences ?c3)\<rparr>"
    unfolding compareFiles_alt c2 ..
  have st: "matches ?c3 = matches ?c2" "conflicts ?c3 = conflicts ?c2"
    "file1Only ?c3 = file1Only ?c2" "file2Only ?c3 = file2Only ?c2"
    "filter (\<lambda>d. \<not> isBlockConflict d) (differences ?c3) = filter (\<lambda>d. \<not> isBlockConflict d) (differences ?c2)"
    by (rule block_loop_stats)+
  have d2: "differences ?c2 = ?only" by (simp add: new_SatComparator_def)
  have "mset (filter (\<lambda>d. \<not> isBlockConflict d) (arraySort compareDifferences (differences ?c3)))
      = filter_mset (\<lambda>d. \<not> isBlockConflict d) (mset (differences ?c3))"
    by (simp add: mset_arraySort)
  also have "\<dots> = mset (filter (\<lambda>d. \<not> isBlockConflict d) (differences ?c3))" by simp
  also have "\<dots> = mset ?only" unfolding st(5) d2 only_entries_not_block_conflict ..
  finally have p1: "mset (filter (\<lambda>d. \<not> isBlockConflict d) (differences (compareFiles A B new_SatComparator)))
           = mset (map (\<lambda>(s, b). FILE1_ONLY s b) A) + mset (map (\<lambda>(s, b). FILE2_ONLY s b) B)"
    unfolding r by simp
  have p2: "matches (compareFiles A B new_SatComparator) = 0"
    "conflicts (compareFiles A B new_SatComparator) = 0"
    "file1Only (compareFiles A B new_SatComparator) = length A"
    "file2Only (compareFiles A B new_SatComparator) = length B"
    unfolding r using st(1-4) by (simp_all add: new_SatComparator_def)
  have p3: "filter isBlockConflict (differences (compareFiles A B new_SatComparator)) = []
            \<and> length (differences (compareFiles A B new_SatComparator)) = length A + length B"
    if bd: "snd ` set A \<inter> snd ` set B = {}"
  proof -
    have "\<forall>b \<in> set ?bs. map_of ?m1 b = None \<or> map_of ?m2 b = None"
    proof
      fix b assume "b \<in> set ?bs"
      show "map_of ?m1 b = None \<or> map_of ?m2 b = None"
      proof (cases "b \<in> snd ` set A")
        case False
        then show ?thesis by (simp add: map_of_buildBlockToSat_None)
      next
        case True
        with bd have "b \<notin> snd ` set B" by auto
        then show ?thesis by (simp add: map_of_buildBlockToSat_None)
      qed
    qed
    then have c3: "?c3 = ?c2" by (rule block_loop_none)
    have ms: "mset (differences (compareFiles A B new_SatComparator)) = mset ?only"
      unfolding r c3 by (simp add: mset_arraySort d2 new_SatComparator_def)
    have seteq: "set (differences (compareFiles A B new_SatComparator)) = set ?only"
      using ms by (rule mset_eq_setD)
    have "\<forall>d \<in> set ?only. \<not> isBlockConflict d" by auto
    then have a: "filter isBlockConflict (differences (compareFiles A B new_SatComparator)) = []"
      unfolding filter_empty_conv seteq .
    have "length (differences (compareFiles A B new_SatComparator)) = length ?only"
      using ms by (rule mset_eq_length)
    then have b: "length (differences (compareFiles A B new_SatComparator)) = length A + length B"
      by simp
    show ?thesis using a b by (rule conjI)
  qed
  show ?thesis
  proof (intro conjI impI)
    assume bd: "snd ` set A \<inter> snd ` set B = {}"
    show "filter isBlockConflict (differences (compareFiles A B new_SatComparator)) = []"
      using p3[OF bd] by (rule conjunct1)
    show "length (differences (compareFiles A B new_SatComparator)) = length A + length B"
      using p3[OF bd] by (rule conjunct2)
  qed (fact p1 p2)+
qed

lemma disjoint_block_conflicts:
  assumes dA: "distinct (map fst A)" and dB: "distinct (map fst B)"
    and disj: "set (map fst A) \<inter> set (map fst B) = {}"
  shows "count_list (differences (compareFiles A B new_SatComparator)) (BLOCK_CONFLICT b s1 s2)
            = (if map_of (rev (map (\<lambda>(sat, block). (block, sat)) A)) b = Some s1
                  \<and> map_of (rev (map (\<lambda>(sat, block). (block, sat)) B)) b = Some s2
                  \<and> s1 \<noteq> 0 \<and> s2 \<noteq> 0
               then 1 else 0)"
proof -
  let ?c1 = "new_SatComparator\<lparr>file1Data := A, file2Data := B,
                  file1Count := length A, file2Count := length B\<rparr>"
  let ?only = "map (\<lambda>(s, b). FILE1_ONLY s b) A @ map (\<lambda>(s, b). FILE2_ONLY s b) B"
  let ?c2 = "?c1\<lparr>differences := differences ?c1 @ ?only,
       file1Only := file1Only ?c1 + length A, file2Only := file2Only ?c1 + length B\<rparr>"
  let ?m1 = "buildBlockToSat A" and ?m2 = "buildBlockToSat B"
  let ?bs = "newSet (map fst ?m1 @ map fst ?m2)"
  let ?c3 = "foldl (checkBlock ?m1 ?m2) ?c2 ?bs"
  let ?Q = "\<lambda>b. present (map_of ?m1 b) \<and> present (map_of ?m2 b) \<and> map_of ?m1 b \<noteq> map_of ?m2 b"
  let ?g = "\<lambda>b. the (map_of ?m1 b)" and ?h = "\<lambda>b. the (map_of ?m2 b)"
  have c2: "foldl classifySat ?c1 (newSet (map fst A @ map fst B)) = ?c2"
    by (rule sat_loop_disjoint[OF dA dB disj]) simp_all
  have r: "compareFiles A B new_SatComparator
      = ?c3\<lparr>differences := arraySort compareDifferences (differences ?c3)\<rparr>"
    unfolding compareFiles_alt c2 ..
  have d2: "differences ?c2 = ?only" by (simp add: new_SatComparator_def)
  have d3: "differences ?c3 = ?only @ map (\<lambda>b. BLOCK_CONFLICT b (?g b) (?h b)) (filter ?Q ?bs)"
    unfolding block_loop_differences d2 ..
  have cnt: "count_list (differences (compareFiles A B new_SatComparator)) (BLOCK_CONFLICT b s1 s2)
      = (if b \<in> set (filter ?Q ?bs) \<and> ?g b = s1 \<and> ?h b = s2 then 1 else 0)"
  proof -
    have dr: "differences (compareFiles A B new_SatComparator)
                = arraySort compareDifferences (differences ?c3)"
      unfolding r by simp
    have "count_list (?only @ map (\<lambda>b. BLOCK_CONFLICT b (?g b) (?h b)) (filter ?Q ?bs)) (BLOCK_CONFLICT b s1 s2)
        = count_list (map (\<lambda>b. BLOCK_CONFLICT b (?g b) (?h b)) (filter ?Q ?bs)) (BLOCK_CONFLICT b s1 s2)"
      using count_only_entries[of A B b s1 s2] by simp
    also have "\<dots> = (if b \<in> set (filter ?Q ?bs) \<and> ?g b = s1 \<and> ?h b = s2 then 1 else 0)"
      by (rule count_block_conflicts[OF distinct_filter[OF distinct_newSet]])
    finally show ?thesis unfolding dr count_list_arraySort d3 .
  qed
  have neq: "map_of ?m1 b \<noteq> map_of ?m2 b" if "present (map_of ?m1 b)" "present (map_of ?m2 b)"
  proof -
    from that obtain x y where x: "map_of ?m1 b = Some x" and y: "map_of ?m2 b = Some y"
      by (cases "map_of ?m1 b"; cases "map_of ?m2 b") auto
    have "x \<in> fst ` set A" using x by (rule buildBlockToSat_value)
    moreover have "y \<in> fst ` set B" using y by (rule buildBlockToSat_value)
    ultimately have "x \<noteq> y" using disj by auto
    then show ?thesis using x y by simp
  qed
  have inbs: "b \<in> set ?bs" if "present (map_of ?m1 b)"
  proof -
    from that have "map_of ?m1 b \<noteq> None" by (cases "map_of ?m1 b") auto
    then have "b \<in> fst ` set ?m1" by (simp add: map_of_eq_None_iff)
    then show ?thesis by (simp add: set_newSet)
  qed
  have iff: "(b \<in> set (filter ?Q ?bs) \<and> ?g b = s1 \<and> ?h b = s2)
      \<longleftrightarrow> (map_of ?m1 b = Some s1 \<and> map_of ?m2 b = Some s2 \<and> s1 \<noteq> 0 \<and> s2 \<noteq> 0)"
  proof
    assume a: "b \<in> set (filter ?Q ?bs) \<and> ?g b = s1 \<and> ?h b = s2"
    then have p: "present (map_of ?m1 b)" "present (map_of ?m2 b)" by simp_all
    from p obtain x y where x: "map_of ?m1 b = Some x" "x \<noteq> 0" and y: "map_of ?m2 b = Some y" "y \<noteq> 0"
      by (cases "map_of ?m1 b"; cases "map_of ?m2 b") auto
    show "map_of ?m1 b = Some s1 \<and> map_of ?m2 b = Some s2 \<and> s1 \<noteq> 0 \<and> s2 \<noteq> 0"
      using a x y by simp
  next
    assume a: "map_of ?m1 b = Some s1 \<and> map_of ?m2 b = Some s2 \<and> s1 \<noteq> 0 \<and> s2 \<noteq> 0"
    then have p: "present (map_of ?m1 b)" "present (map_of ?m2 b)" by simp_all
    have "?Q b" using p neq[OF p] by simp
    then have "b \<in> set (filter ?Q ?bs)" using inbs[OF p(1)] by simp
    then show "b \<in> set (filter ?Q ?bs) \<and> ?g b = s1 \<and> ?h b = s2" using a by simp
  qed
  have "count_list (differences (compareFiles A B new_SatComparator)) (BLOCK_CONFLICT b s1 s2)
      = (if map_of ?m1 b = Some s1 \<and> map_of ?m2 b = Some s2 \<and> s1 \<noteq> 0 \<and> s2 \<noteq> 0 then 1 else 0)"
    unfolding cnt iff ..
  then show ?thesis unfolding map_of_buildBlockToSat .
qed

text \<open>
  Claim C3, as amended. For two keyed datasets with disjoint sat sets the differences
  other than block conflicts are exactly one \<open>FILE1_ONLY\<close> entry per entry of the first
  dataset and one \<open>FILE2_ONLY\<close> entry per entry of the second; no match and no sat
  conflict is counted. Beside them there is exactly one \<open>BLOCK_CONFLICT\<close> entry for each
  block that both datasets claim and whose sat, the last one listed for that block in
  each dataset, is not 0 on either side, and no other block conflict. The number of
  differences is the sum of the two sizes and of the number of block conflicts; when no
  block is claimed in both datasets there is no block conflict and it is the sum of the
  two sizes.
\<close>

theorem disjoint_keys_only_in_entries:
  assumes dA: "distinct (map fst A)" and dB: "distinct (map fst B)"
    and disj: "set (map fst A) \<inter> set (map fst B) = {}"
  shows "mset (filter (\<lambda>d. \<not> isBlockConflict d) (differences (compareFiles A B new_SatComparator)))
           = mset (map (\<lambda>(s, b). FILE1_ONLY s b) A) + mset (map (\<lambda>(s, b). FILE2_ONLY s b) B)
       \<and> matches (compareFiles A B new_SatComparator) = 0
       \<and> conflicts (compareFiles A B new_SatComparator) = 0
       \<and> file1Only (compareFiles A B new_SatComparator) = length A
       \<and> file2Only (compareFiles A B new_SatComparator) = length B
       \<and> (\<forall>b s1 s2.
            count_list (differences (compareFiles A B new_SatComparator)) (BLOCK_CONFLICT b s1 s2)
              = (if map_of (rev (map (\<lambda>(sat, block). (block, sat)) A)) b = Some s1
                    \<and> map_of (rev (map (\<lambda>(sat, block). (block, sat)) B)) b = Some s2
                    \<and> s1 \<noteq> 0 \<and> s2 \<noteq> 0
                 then 1 else 0))
       \<and> length (differences (compareFiles A B new_SatComparator))
           = length A + length B
             + length (filter isBlockConflict (differences (compareFiles A B new_SatComparator)))
       \<and> (snd ` set A \<inter> snd ` set B = {} \<longrightarrow>
            filter isBlockConflict (differences (compareFiles A B new_SatComparator)) = []
            \<and> length (differences (compareFiles A B new_SatComparator)) = length A + length B)"
proof -
  let ?ds = "differences (compareFiles A B new_SatComparator)"
  note sp = disjoint_keys_sat_pass[OF dA dB disj]
  have p1: "mset (filter (\<lambda>d. \<not> isBlockConflict d) ?ds)
           = mset (map (\<lambda>(s, b). FILE1_ONLY s b) A) + mset (map (\<lambda>(s, b). FILE2_ONLY s b) B)"
    using sp by (rule conjunct1)
  have "mset (filter (\<lambda>d. \<not> isBlockConflict d) ?ds)
          = mset (map (\<lambda>(s, b). FILE1_ONLY s b) A @ map (\<lambda>(s, b). FILE2_ONLY s b) B)"
    using p1 by simp
  then have "length (filter (\<lambda>d. \<not> isBlockConflict d) ?ds)
          = length (map (\<lambda>(s, b). FILE1_ONLY s b) A @ map (\<lambda>(s, b). FILE2_ONLY s b) B)"
    by (rule mset_eq_length)
  then have l1: "length (filter (\<lambda>d. \<not> isBlockConflict d) ?ds) = length A + length B" by simp
  have "length ?ds = length (filter isBlockConflict ?ds) + length (filter (\<lambda>d. \<not> isBlockConflict d) ?ds)"
    by (rule sum_length_filter_compl[symmetric])
  then have p7: "length ?ds = length A + length B + length (filter isBlockConflict ?ds)"
    using l1 by simp
  have p6: "\<forall>b s1 s2. count_list ?ds (BLOCK_CONFLICT b s1 s2)
              = (if map_of (rev (map (\<lambda>(sat, block). (block, sat)) A)) b = Some s1
                    \<and> map_of (rev (map (\<lambda>(sat, block). (block, sat)) B)) b = Some s2
                    \<and> s1 \<noteq> 0 \<and> s2 \<noteq> 0
                 then 1 else 0)"
    by (intro allI) (rule disjoint_block_conflicts[OF dA dB disj])
  show ?thesis
    using sp p6 p7 by (elim conjE) (intro conjI; assumption)
qed

theorem disjoint_keys_only_in_entries_witness:
  "distinct (map fst [(100::nat, 5::nat), (0, 7)]) \<and> distinct (map fst [(200::nat, 5::nat), (300, 7)])
   \<and> set (map fst [(100::nat, 5::nat), (0, 7)]) \<inter> set (map fst [(200::nat, 5::nat), (300, 7)]) = {}
   \<and> file1Only (compareFiles [(100, 5), (0, 7)] [(200, 5), (300, 7)] new_SatComparator) = 2
   \<and> file2Only (compareFiles [(100, 5), (0, 7)] [(200, 5), (300, 7)] new_SatComparator) = 2
   \<and> count_list (differences (compareFiles [(100, 5), (0, 7)] [(200, 5), (300, 7)] new_SatComparator))
        (BLOCK_CONFLICT 5 100 200) = 1
   \<and> count_list (differences (compareFiles [(100, 5), (0, 7)] [(200, 5), (300, 7)] new_SatComparator))
        (BLOCK_CONFLICT 7 0 300) = 0
   \<and> snd ` set [(100::nat, 5::nat)] \<inter> snd ` set [(200::nat, 6::nat)] = {}
   \<and> filter isBlockConflict (differences (compareFiles [(100, 5)] [(200, 6)] new_SatComparator)) = []
   \<and> length (differences (compareFiles [(100, 5)] [(200, 6)] new_SatComparator)) = 2"
  using disjoint_keys_only_in_entries[of "[(100, 5), (0, 7)]" "[(200, 5), (300, 7)]"]
        disjoint_keys_only_in_entries[of "[(100, 5)]" "[(200, 6)]"]
  by simp

text \<open>
  The claim as stated fails: sat 100 and sat 200 are different keys, both claim block 5,
  and the comparison reports three differences, one of them a block conflict.
\<close>

theorem disjoint_keys_block_conflict:
  "set (map fst [(100::nat, 5::nat)]) \<inter> set (map fst [(200::nat, 5::nat)]) = {}
   \<and> differences (compareFiles [(100, 5)] [(200, 5)] new_SatComparator)
       = [FILE1_ONLY 100 5, FILE2_ONLY 200 5, BLOCK_CONFLICT 5 100 200]"
  by (simp add: cf_defs)

text \<open>
  Claim C4, as amended. Comparing a keyed dataset with itself yields an empty list of
  differences: a match is counted, not listed. The match counter equals the size of the
  dataset, and no conflict and no one-sided entry is counted.
\<close>

theorem diff_identical_inputs:
  assumes dA: "distinct (map fst A)"
  shows "differences (compareFiles A A new_SatComparator) = []
       \<and> matches (compareFiles A A new_SatComparator) = length A
       \<and> conflicts (compareFiles A A new_SatComparator) = 0
       \<and> file1Only (compareFiles A A new_SatComparator) = 0
       \<and> file2Only (compareFiles A A new_SatComparator) = 0"
proof -
  let ?c1 = "new_SatComparator\<lparr>file1Data := A, file2Data := A,
                  file1Count := length A, file2Count := length A\<rparr>"
  have keys: "newSet (map fst A @ map fst A) = map fst A" using dA by (rule newSet_twice)
  have "\<forall>s \<in> set (map fst A). map_of (file1Data ?c1) s \<noteq> None"
    by (auto simp add: map_of_eq_None_iff)
  then have c2: "foldl classifySat ?c1 (map fst A) = ?c1\<lparr>matches := matches ?c1 + length (map fst A)\<rparr>"
    by (intro sat_loop_match) simp
  have r: "compareFiles A A new_SatComparator
      = (?c1\<lparr>matches := matches ?c1 + length (map fst A)\<rparr>)
          \<lparr>differences := arraySort compareDifferences
              (differences (?c1\<lparr>matches := matches ?c1 + length (map fst A)\<rparr>))\<rparr>"
    unfolding compareFiles_def Let_def keys c2 block_loop_same ..
  show ?thesis unfolding r by (simp add: new_SatComparator_def arraySort_Nil)
qed

theorem diff_identical_inputs_witness:
  "distinct (map fst [(100::nat, 5::nat), (200, 6)])
   \<and> differences (compareFiles [(100, 5), (200, 6)] [(100, 5), (200, 6)] new_SatComparator) = []
   \<and> matches (compareFiles [(100, 5), (200, 6)] [(100, 5), (200, 6)] new_SatComparator) = 2"
  using diff_identical_inputs[of "[(100, 5), (200, 6)]"]
  by simp

text \<open>
  The claim as stated fails: for the one-entry dataset of the specification's scenario
  the list of differences holds no entry at all, so not one per key.
\<close>

theorem diff_identical_no_match_entries:
  "length (differences (compareFiles [(100, 5)] [(100, 5)] new_SatComparator)) \<noteq> length [(100::nat, 5::nat)]
   \<and> differences (compareFiles [(100, 5)] [(100, 5)] new_SatComparator) = []
   \<and> matches (compareFiles [(100, 5)] [(100, 5)] new_SatComparator) = 1"
  by (simp add: cf_defs)

text \<open>
  Claim C5 fails on the code. The first dataset holds sat 5 and then sat 0, the second
  is empty. The comparator tests the sats for truthiness, sat 0 fails the test, and it
  answers 0 for the two entries in either order; a stable sort leaves them as they
  were, sat 5 in front of sat 0.
\<close>

theorem sort_leaves_sat_zero_out_of_order:
  "differences (compareFiles [(5, 1), (0, 2)] [] new_SatComparator)
     = [FILE1_ONLY 5 1, FILE1_ONLY 0 2]
   \<and> compareDifferences (FILE1_ONLY 5 1) (FILE1_ONLY 0 2) = 0
   \<and> compareDifferences (FILE1_ONLY 0 2) (FILE1_ONLY 5 1) = 0"
  by (simp add: cf_defs)

subsection \<open>FiF resolver\<close>

lemma decideByPosition_heights:
  "blockHeight p1 = Some h1 \<Longrightarrow> blockHeight p2 = Some h2 \<Longrightarrow>
   (v_winner (decideByPosition c p1 p2) = REPO1 \<longrightarrow> h1 \<le> h2)
   \<and> (v_winner (decideByPosition c p1 p2) = REPO2 \<longrightarrow> h2 \<le> h1)"
  by (simp add: decideByPosition_def Let_def split: option.splits)

lemma decideIdentical_winner_cases:
  "v_winner (decideIdentical c r cid rid a pc pr) = r
   \<or> v_winner (decideIdentical c r cid rid a pc pr) = otherRepo r"
  by (simp add: decideIdentical_def Let_def split: option.splits)

lemma decideIdentical_heights:
  "blockHeight pc = Some hc \<Longrightarrow> blockHeight pr = Some hr \<Longrightarrow> r \<noteq> otherRepo r \<Longrightarrow>
   (v_winner (decideIdentical c r cid rid a pc pr) = r \<longrightarrow> hc \<le> hr)
   \<and> (v_winner (decideIdentical c r cid rid a pc pr) = otherRepo r \<longrightarrow> hr \<le> hc)"
  by (simp add: decideIdentical_def Let_def split: option.splits)

lemma otherRepo_neq: "r = REPO1 \<or> r = REPO2 \<Longrightarrow> r \<noteq> otherRepo r"
  by (auto simp add: otherRepo_def)

lemma validateRemainingSat_winner:
  "v_winner (fst (validateRemainingSat w c r cid rsat a s)) = r
   \<or> v_winner (fst (validateRemainingSat w c r cid rsat a s)) = otherRepo r"
proof -
  obtain rf s2 where g: "getInscriptionBySat w rsat (c_block c) s = (rf, s2)"
    by (cases "getInscriptionBySat w rsat (c_block c) s")
  show ?thesis
  proof (cases rf)
    case None
    then show ?thesis by (simp add: validateRemainingSat_def g)
  next
    case (Some rid)
    show ?thesis
    proof (cases "rid = []")
      case True
      then show ?thesis using Some by (simp add: validateRemainingSat_def g)
    next
      case False
      show ?thesis
      proof (cases "extractTxId cid")
        case None
        then show ?thesis using Some False by (simp add: validateRemainingSat_def g)
      next
        case ct: (Some ctx)
        show ?thesis
        proof (cases "extractTxId rid")
          case None
          then show ?thesis using Some False ct by (simp add: validateRemainingSat_def g)
        next
          case rt: (Some rtx)
          obtain pc s3 where p1: "getTxPositionInBlock w ctx s2 = (pc, s3)"
            by (cases "getTxPositionInBlock w ctx s2")
          obtain pr s4 where p2: "getTxPositionInBlock w rtx s3 = (pr, s4)"
            by (cases "getTxPositionInBlock w rtx s3")
          show ?thesis using Some False ct rt p1 p2 decideIdentical_winner_cases[of c r cid rid a pc pr]
            by (simp add: validateRemainingSat_def g)
        qed
      qed
    qed
  qed
qed

lemma otherRepo_simps: "otherRepo REPO1 = REPO2" "otherRepo REPO2 = REPO1"
  by (simp_all add: otherRepo_def)

lemma validateRemainingSat_not_NEITHER:
  assumes "r = REPO1 \<or> r = REPO2"
  shows "v_winner (fst (validateRemainingSat w c r cid rsat a s)) \<noteq> NEITHER"
proof -
  have "otherRepo r \<noteq> NEITHER" "r \<noteq> NEITHER" using assms by (auto simp add: otherRepo_def)
  then show ?thesis using validateRemainingSat_winner[of w c r cid rsat a s] by metis
qed

lemma resolveIdentical_not_NEITHER:
  "v_winner (fst (resolveIdenticalInscriptionConflict w c s)) \<noteq> NEITHER"
proof -
  obtain found s1 where g: "getInscriptionSatoshi w (repo1Id c) s = (found, s1)"
    by (cases "getInscriptionSatoshi w (repo1Id c) s")
  have v1: "v_winner (fst (validateRemainingSat w c REPO1 cid rsat a s1)) \<noteq> NEITHER" for cid rsat a
    by (rule validateRemainingSat_not_NEITHER) simp
  have v2: "v_winner (fst (validateRemainingSat w c REPO2 cid rsat a s1)) \<noteq> NEITHER" for cid rsat a
    by (rule validateRemainingSat_not_NEITHER) simp
  show ?thesis
  proof (cases found)
    case None
    then show ?thesis by (simp add: resolveIdenticalInscriptionConflict_def g)
  next
    case (Some actualSat)
    show ?thesis
    proof (cases "actualSat = []")
      case True
      then show ?thesis using Some by (simp add: resolveIdenticalInscriptionConflict_def g)
    next
      case ne: False
      show ?thesis
      proof (cases "actualSat = showNat (file1Sat c)")
        case m1: True
        show ?thesis
        proof (cases "actualSat = showNat (file2Sat c)")
          case True
          then show ?thesis using Some ne m1
            by (simp add: resolveIdenticalInscriptionConflict_def g Let_def)
        next
          case False
          then show ?thesis using Some ne m1 v1
            by (simp add: resolveIdenticalInscriptionConflict_def g Let_def)
        qed
      next
        case m1: False
        show ?thesis
        proof (cases "actualSat = showNat (file2Sat c)")
          case True
          then show ?thesis using Some ne m1 v2
            by (simp add: resolveIdenticalInscriptionConflict_def g Let_def)
        next
          case False
          then show ?thesis using Some ne m1
            by (simp add: resolveIdenticalInscriptionConflict_def g Let_def)
        qed
      qed
    qed
  qed
qed

text \<open>
  Claim C1 fails on the code. When both sides cite no identity the two ids are equal,
  and \<open>resolveConflict\<close> tests for equal ids first: the conflict goes to the
  identical-identity sub-protocol, whose verdict is never \<open>NEITHER\<close>. The branch that
  returns \<open>NEITHER\<close> comes second and is never reached.
\<close>

theorem both_ids_not_found_never_NEITHER:
  assumes "repo1Id c = ''ID not found''" and "repo2Id c = ''ID not found''"
  shows "resolveConflict w c s = resolveIdenticalInscriptionConflict w c s
       \<and> v_winner (fst (resolveConflict w c s)) \<noteq> NEITHER"
proof -
  have eq: "resolveConflict w c s = resolveIdenticalInscriptionConflict w c s"
    using assms by (simp add: resolveConflict_def)
  have "v_winner (fst (resolveIdenticalInscriptionConflict w c s)) \<noteq> NEITHER"
    by (rule resolveIdentical_not_NEITHER)
  then show ?thesis by (simp only: eq simp_thms)
qed

theorem both_ids_not_found_never_NEITHER_witness:
  "repo1Id conflictNF = ''ID not found'' \<and> repo2Id conflictNF = ''ID not found''
   \<and> v_winner (fst (resolveConflict ledger_world conflictNF (new_TrueBitmapResolver ledger_world 0))) = UNKNOWN
   \<and> v_reason (fst (resolveConflict ledger_world conflictNF (new_TrueBitmapResolver ledger_world 0)))
        = ''Could not determine actual satoshi''"
  using both_ids_not_found_never_NEITHER[of conflictNF ledger_world "new_TrueBitmapResolver ledger_world 0"]
  by (simp add: conflictNF_def resolveIdenticalInscriptionConflict_def getInscriptionSatoshi_def
        ledger_world_def)

lemma extractTxId_not_found: "extractTxId ''ID not found'' = None"
  by (simp add: extractTxId_def)

lemma resolveConflict_different:
  assumes "repo1Id c \<noteq> repo2Id c"
    and "extractTxId (repo1Id c) = Some t1" and "extractTxId (repo2Id c) = Some t2"
    and "getTxPositionInBlock w t1 s = (p1, s1)" and "getTxPositionInBlock w t2 s1 = (p2, s2)"
  shows "resolveConflict w c s = (decideByPosition c p1 p2, s2)"
proof -
  have "repo1Id c \<noteq> ''ID not found''" using assms(2) extractTxId_not_found by auto
  moreover have "repo2Id c \<noteq> ''ID not found''" using assms(3) extractTxId_not_found by auto
  ultimately show ?thesis using assms by (simp add: resolveConflict_def)
qed

lemma validateRemainingSat_positions:
  assumes "getInscriptionBySat w rsat (c_block c) s1 = (Some rid, s2)" and "rid \<noteq> []"
    and "extractTxId cid = Some ct" and "extractTxId rid = Some rt"
    and "getTxPositionInBlock w ct s2 = (pc, s3)" and "getTxPositionInBlock w rt s3 = (pr, s4)"
  shows "validateRemainingSat w c r cid rsat a s1 = (decideIdentical c r cid rid a pc pr, s4)"
  using assms by (simp add: validateRemainingSat_def)

lemma resolveConflict_identical:
  assumes same: "repo1Id c = repo2Id c"
    and sat: "getInscriptionSatoshi w (repo1Id c) s = (Some actualSat, s1)" "actualSat \<noteq> []"
    and one: "(actualSat = showNat (file1Sat c)) \<noteq> (actualSat = showNat (file2Sat c))"
    and rem: "getInscriptionBySat w (if actualSat = showNat (file1Sat c) then file2Sat c else file1Sat c)
                (c_block c) s1 = (Some rid, s2)" "rid \<noteq> []"
    and tx: "extractTxId (repo1Id c) = Some ct" "extractTxId rid = Some rt"
    and pos: "getTxPositionInBlock w ct s2 = (pc, s3)" "getTxPositionInBlock w rt s3 = (pr, s4)"
  shows "resolveConflict w c s =
           (decideIdentical c (if actualSat = showNat (file1Sat c) then REPO1 else REPO2)
              (repo1Id c) rid actualSat pc pr, s4)"
proof -
  have eq: "resolveConflict w c s = resolveIdenticalInscriptionConflict w c s"
    using same by (simp add: resolveConflict_def)
  show ?thesis
  proof (cases "actualSat = showNat (file1Sat c)")
    case True
    then have m2: "actualSat \<noteq> showNat (file2Sat c)" using one by simp
    have v: "validateRemainingSat w c REPO1 (repo1Id c) (file2Sat c) actualSat s1
          = (decideIdentical c REPO1 (repo1Id c) rid actualSat pc pr, s4)"
    proof -
      have r1: "getInscriptionBySat w (file2Sat c) (c_block c) s1 = (Some rid, s2)"
        using rem(1) True by simp
      show ?thesis by (rule validateRemainingSat_positions[OF r1 rem(2) tx(1) tx(2) pos(1) pos(2)])
    qed
    have "resolveIdenticalInscriptionConflict w c s
          = validateRemainingSat w c REPO1 (repo1Id c) (file2Sat c) actualSat s1"
      using sat True m2 by (simp add: resolveIdenticalInscriptionConflict_def Let_def)
    then show ?thesis using eq v True by simp
  next
    case False
    then have m2: "actualSat = showNat (file2Sat c)" using one by simp
    have v: "validateRemainingSat w c REPO2 (repo1Id c) (file1Sat c) actualSat s1
          = (decideIdentical c REPO2 (repo1Id c) rid actualSat pc pr, s4)"
    proof -
      have r1: "getInscriptionBySat w (file1Sat c) (c_block c) s1 = (Some rid, s2)"
        using rem(1) False by simp
      show ?thesis by (rule validateRemainingSat_positions[OF r1 rem(2) tx(1) tx(2) pos(1) pos(2)])
    qed
    have "resolveIdenticalInscriptionConflict w c s
          = validateRemainingSat w c REPO2 (repo2Id c) (file1Sat c) actualSat s1"
      using sat False m2 by (simp add: resolveIdenticalInscriptionConflict_def Let_def)
    then show ?thesis using eq v False same by simp
  qed
qed

lemmas resolver_defs = getTxPositionInBlock_def fetchFromAPI_def primaryApis_def checkQuota_def
  fetchJSONWithRetry_def attemptJSON_def apiUrl_def fetchBlockTxids_def markExhausted_def
  new_TrueBitmapResolver_def blockstreamBase_def unknown_position_def toLowerCase_def
  refreshBlockstreamAuth_def verifyBlockstreamCredentials_def attemptFetchJSON_def Let_def
  numeral_3_eq_3

lemma ex1: "extractTxId (txA @ ''i0'') = Some txA"
  by (simp add: extractTxId_def txA_def)

lemma ex2: "extractTxId (txB @ ''i0'') = Some txB"
  by (simp add: extractTxId_def txB_def)



lemma different_path:
  assumes "repo1Id c \<noteq> repo2Id c"
    and "extractTxId (repo1Id c) = Some t1" and "extractTxId (repo2Id c) = Some t2"
    and "getTxPositionInBlock w t1 s = (p1, s1)" and "getTxPositionInBlock w t2 s1 = (p2, s2)"
    and h: "blockHeight p1 = Some h1" "blockHeight p2 = Some h2"
  shows "resolveConflict w c s = (decideByPosition c p1 p2, s2)"
    and "v_winner (fst (resolveConflict w c s)) = REPO1 \<Longrightarrow> h1 \<le> h2"
    and "v_winner (fst (resolveConflict w c s)) = REPO2 \<Longrightarrow> h2 \<le> h1"
proof -
  show eq: "resolveConflict w c s = (decideByPosition c p1 p2, s2)"
    using assms(1-5) by (rule resolveConflict_different)
  show "v_winner (fst (resolveConflict w c s)) = REPO1 \<Longrightarrow> h1 \<le> h2"
    using decideByPosition_heights[OF h, of c] by (simp add: eq)
  show "v_winner (fst (resolveConflict w c s)) = REPO2 \<Longrightarrow> h2 \<le> h1"
    using decideByPosition_heights[OF h, of c] by (simp add: eq)
qed

lemma identical_path:
  assumes "repo1Id c = repo2Id c"
    and "getInscriptionSatoshi w (repo1Id c) s = (Some actualSat, s1)" and "actualSat \<noteq> []"
    and "(actualSat = showNat (file1Sat c)) \<noteq> (actualSat = showNat (file2Sat c))"
    and "getInscriptionBySat w (if actualSat = showNat (file1Sat c) then file2Sat c else file1Sat c)
            (c_block c) s1 = (Some rid, s2)" and "rid \<noteq> []"
    and "extractTxId (repo1Id c) = Some ct" and "extractTxId rid = Some rt"
    and "getTxPositionInBlock w ct s2 = (pc, s3)" and "getTxPositionInBlock w rt s3 = (pr, s4)"
    and h: "blockHeight pc = Some hc" "blockHeight pr = Some hr"
  shows "resolveConflict w c s =
          (decideIdentical c (if actualSat = showNat (file1Sat c) then REPO1 else REPO2)
             (repo1Id c) rid actualSat pc pr, s4)"
    and "v_winner (fst (resolveConflict w c s))
              = (if actualSat = showNat (file1Sat c) then REPO1 else REPO2) \<Longrightarrow> hc \<le> hr"
    and "v_winner (fst (resolveConflict w c s))
              = (if actualSat = showNat (file1Sat c) then REPO2 else REPO1) \<Longrightarrow> hr \<le> hc"
proof -
  let ?r = "if actualSat = showNat (file1Sat c) then REPO1 else REPO2"
  show eq: "resolveConflict w c s = (decideIdentical c ?r (repo1Id c) rid actualSat pc pr, s4)"
    using assms(1-10) by (rule resolveConflict_identical)
  have r: "?r \<noteq> otherRepo ?r" by (simp add: otherRepo_def)
  have o: "otherRepo ?r = (if actualSat = showNat (file1Sat c) then REPO2 else REPO1)"
    by (simp add: otherRepo_def)
  note d = decideIdentical_heights[OF h r, of c "repo1Id c" rid actualSat]
  show "v_winner (fst (resolveConflict w c s)) = ?r \<Longrightarrow> hc \<le> hr"
    using d by (simp add: eq)
  show "v_winner (fst (resolveConflict w c s))
          = (if actualSat = showNat (file1Sat c) then REPO2 else REPO1) \<Longrightarrow> hr \<le> hc"
    using d unfolding o by (simp add: eq)
qed


text \<open>
  Claim C2. Whenever \<open>resolveConflict\<close> has fetched two ledger positions with known
  block heights, the side it declares the winner does not have the greater height. In
  the different-identity path the two positions are those of the two claimed
  inscriptions; in the identical-identity sub-protocol they are those of the agreed
  inscription (the side whose sat is correct) and of the bitmap inscription found on the
  remaining sat (the other side). In every other path no position is fetched.
\<close>

theorem fif_winner_never_later:
  "(repo1Id c \<noteq> repo2Id c
      \<and> extractTxId (repo1Id c) = Some t1 \<and> extractTxId (repo2Id c) = Some t2
      \<and> getTxPositionInBlock w t1 s = (p1, s1) \<and> getTxPositionInBlock w t2 s1 = (p2, s2)
      \<and> blockHeight p1 = Some h1 \<and> blockHeight p2 = Some h2
    \<longrightarrow> resolveConflict w c s = (decideByPosition c p1 p2, s2)
        \<and> (v_winner (fst (resolveConflict w c s)) = REPO1 \<longrightarrow> h1 \<le> h2)
        \<and> (v_winner (fst (resolveConflict w c s)) = REPO2 \<longrightarrow> h2 \<le> h1))
   \<and> (repo1Id c = repo2Id c
      \<and> getInscriptionSatoshi w (repo1Id c) s = (Some actualSat, s1') \<and> actualSat \<noteq> []
      \<and> (actualSat = showNat (file1Sat c)) \<noteq> (actualSat = showNat (file2Sat c))
      \<and> getInscriptionBySat w (if actualSat = showNat (file1Sat c) then file2Sat c else file1Sat c)
            (c_block c) s1' = (Some rid, s2') \<and> rid \<noteq> []
      \<and> extractTxId (repo1Id c) = Some ct \<and> extractTxId rid = Some rt
      \<and> getTxPositionInBlock w ct s2' = (pc, s3') \<and> getTxPositionInBlock w rt s3' = (pr, s4')
      \<and> blockHeight pc = Some hc \<and> blockHeight pr = Some hr
    \<longrightarrow> resolveConflict w c s =
          (decideIdentical c (if actualSat = showNat (file1Sat c) then REPO1 else REPO2)
             (repo1Id c) rid actualSat pc pr, s4')
        \<and> (v_winner (fst (resolveConflict w c s))
              = (if actualSat = showNat (file1Sat c) then REPO1 else REPO2) \<longrightarrow> hc \<le> hr)
        \<and> (v_winner (fst (resolveConflict w c s))
              = (if actualSat = showNat (file1Sat c) then REPO2 else REPO1) \<longrightarrow> hr \<le> hc))"
proof (intro conjI impI; elim conjE)
  assume "repo1Id c \<noteq> repo2Id c"
    "extractTxId (repo1Id c) = Some t1" "extractTxId (repo2Id c) = Some t2"
    "getTxPositionInBlock w t1 s = (p1, s1)" "getTxPositionInBlock w t2 s1 = (p2, s2)"
    "blockHeight p1 = Some h1" "blockHeight p2 = Some h2"
  note d = different_path[OF this]
  show "resolveConflict w c s = (decideByPosition c p1 p2, s2)" by (rule d(1))
  show "h1 \<le> h2" if "v_winner (fst (resolveConflict w c s)) = REPO1" using that by (rule d(2))
  show "h2 \<le> h1" if "v_winner (fst (resolveConflict w c s)) = REPO2" using that by (rule d(3))
next
  assume "repo1Id c = repo2Id c"
    "getInscriptionSatoshi w (repo1Id c) s = (Some actualSat, s1')" "actualSat \<noteq> []"
    "(actualSat = showNat (file1Sat c)) \<noteq> (actualSat = showNat (file2Sat c))"
    "getInscriptionBySat w (if actualSat = showNat (file1Sat c) then file2Sat c else file1Sat c)
            (c_block c) s1' = (Some rid, s2')" "rid \<noteq> []"
    "extractTxId (repo1Id c) = Some ct" "extractTxId rid = Some rt"
    "getTxPositionInBlock w ct s2' = (pc, s3')" "getTxPositionInBlock w rt s3' = (pr, s4')"
    "blockHeight pc = Some hc" "blockHeight pr = Some hr"
  note d = identical_path[OF this]
  show "resolveConflict w c s =
          (decideIdentical c (if actualSat = showNat (file1Sat c) then REPO1 else REPO2)
             (repo1Id c) rid actualSat pc pr, s4')" by (rule d(1))
  show "hc \<le> hr" if "v_winner (fst (resolveConflict w c s))
              = (if actualSat = showNat (file1Sat c) then REPO1 else REPO2)" using that by (rule d(2))
  show "hr \<le> hc" if "v_winner (fst (resolveConflict w c s))
              = (if actualSat = showNat (file1Sat c) then REPO2 else REPO1)" using that by (rule d(3))
qed


lemma posA:
  "getTxPositionInBlock ledger_world txA (new_TrueBitmapResolver ledger_world 0)
     = (\<lparr>blockHeight = Some 800000, blockPosition = Some 3\<rparr>,
        (new_TrueBitmapResolver ledger_world 0)
          \<lparr>blockCache := [800000 \<mapsto> [''c0'', ''c1'', ''c2'', txA]],
            mempoolCounter := \<lparr>c_count = 1, c_resetAt = 3600000, c_exhausted = False\<rparr>,
            trace := [ReadClock, Sent Mempool (''https://mempool.space/api/tx/'' @ txA) False,
                      Sent Mempool ''https://mempool.space/api/block/hashA/txids'' False]\<rparr>)"
  by (simp add: resolver_defs ledger_world_def txA_def txB_def)

lemma posB:
  "fst (getTxPositionInBlock ledger_world txB
      ((new_TrueBitmapResolver ledger_world 0)
          \<lparr>blockCache := [800000 \<mapsto> [''c0'', ''c1'', ''c2'', txA]],
            mempoolCounter := \<lparr>c_count = 1, c_resetAt = 3600000, c_exhausted = False\<rparr>,
            trace := [ReadClock, Sent Mempool (''https://mempool.space/api/tx/'' @ txA) False,
                      Sent Mempool ''https://mempool.space/api/block/hashA/txids'' False]\<rparr>))
     = \<lparr>blockHeight = Some 800001, blockPosition = Some 0\<rparr>"
  by (simp add: resolver_defs ledger_world_def txA_def txB_def)

theorem fif_winner_never_later_witness:
  "repo1Id conflictAB \<noteq> repo2Id conflictAB
   \<and> blockHeight (fst (getTxPositionInBlock ledger_world txA (new_TrueBitmapResolver ledger_world 0)))
        = Some 800000
   \<and> blockHeight (fst (getTxPositionInBlock ledger_world txB
        (snd (getTxPositionInBlock ledger_world txA (new_TrueBitmapResolver ledger_world 0)))))
        = Some 800001
   \<and> v_winner (fst (resolveConflict ledger_world conflictAB (new_TrueBitmapResolver ledger_world 0))) = REPO1
   \<and> v_reason (fst (resolveConflict ledger_world conflictAB (new_TrueBitmapResolver ledger_world 0)))
        = ''Inscribed in block 800000 (before block 800001)''"
proof -
  let ?S0 = "new_TrueBitmapResolver ledger_world 0"
  let ?X = "getTxPositionInBlock ledger_world txA ?S0"
  let ?Y = "getTxPositionInBlock ledger_world txB (snd ?X)"
  have ids: "repo1Id conflictAB \<noteq> repo2Id conflictAB"
    by (simp add: conflictAB_def txA_def txB_def)
  have e1: "extractTxId (repo1Id conflictAB) = Some txA" by (simp add: conflictAB_def ex1)
  have e2: "extractTxId (repo2Id conflictAB) = Some txB" by (simp add: conflictAB_def ex2)
  have hA: "blockHeight (fst ?X) = Some 800000" unfolding posA by simp
  have hB: "blockHeight (fst ?Y) = Some 800001" unfolding posA snd_conv posB by simp
  have eq: "resolveConflict ledger_world conflictAB ?S0 = (decideByPosition conflictAB (fst ?X) (fst ?Y), snd ?Y)"
    using fif_winner_never_later[THEN conjunct1, of conflictAB txA txB ledger_world ?S0 "fst ?X" "snd ?X" "fst ?Y" "snd ?Y" 800000 800001]
      ids e1 e2 hA hB by simp
  have pA: "fst ?X = \<lparr>blockHeight = Some 800000, blockPosition = Some 3\<rparr>"
    unfolding posA by simp
  have pB: "fst ?Y = \<lparr>blockHeight = Some 800001, blockPosition = Some 0\<rparr>"
    unfolding posA snd_conv posB ..
  have w: "v_winner (fst (resolveConflict ledger_world conflictAB ?S0)) = REPO1"
    unfolding eq pA pB by (simp add: decideByPosition_def)
  have r: "v_reason (fst (resolveConflict ledger_world conflictAB ?S0))
        = ''Inscribed in block 800000 (before block 800001)''"
    unfolding eq pA pB by (simp add: decideByPosition_def showNat.simps)
  show ?thesis using ids hA hB w r by (intro conjI)
qed

subsection \<open>Duplicate pipeline, both stages\<close>























text \<open>
  The registry of one file with block 5 under sat 100 and under sat 200, run through
  both stages with an index that has no entry: the validator reports block 5 with the
  one sat 200, the parser keeps nothing and the competition stage returns three empty
  lists.
\<close>

lemma block_claimed_twice_run:
  "generateReport (duplicateBlocksEntries (scanAllFiles
       [(''sat_0.json'', [\<lparr>e_block = JNum 5, e_sat = JNum 100\<rparr>, \<lparr>e_block = JNum 5, e_sat = JNum 200\<rparr>])])
       [JNum 5])
     = [BlockLine (JNum 5), DuplicateLine ''sat_0.json'' (JNum 200)]
   \<and> parseDuplicateReport [BlockLine (JNum 5), DuplicateLine ''sat_0.json'' (JNum 200)] = []
   \<and> competitionStage [BlockLine (JNum 5), DuplicateLine ''sat_0.json'' (JNum 200)] Map.empty
       = \<lparr>winners = [], losers = [], unresolved = []\<rparr>"
  by (simp add: generateReport_def duplicateBlocksEntries_def scanAllFiles_def validateEntry_def
        initial_results_def arraySort_def parseDuplicateReport_def competitionStage_def
        resolveCompetition_def List.map_filter_simps Let_def)

text \<open>
  With a third claim, under sat 300, the block passes the parser and, the index having
  no entry for it, is put in the unresolved list, with the sats of the second and third
  claim.
\<close>

lemma block_claimed_three_times_run:
  "competitionStage (generateReport (duplicateBlocksEntries (scanAllFiles
       [(''sat_0.json'', [\<lparr>e_block = JNum 5, e_sat = JNum 100\<rparr>, \<lparr>e_block = JNum 5, e_sat = JNum 200\<rparr>,
                          \<lparr>e_block = JNum 5, e_sat = JNum 300\<rparr>])])
       [JNum 5])) Map.empty
     = \<lparr>winners = [], losers = [], unresolved = [\<lparr>ub_block = 5, ub_duplicateSats = [200, 300]\<rparr>]\<rparr>"
  by (simp add: generateReport_def duplicateBlocksEntries_def scanAllFiles_def validateEntry_def
        initial_results_def arraySort_def parseDuplicateReport_def competitionStage_def
        resolveCompetition_def List.map_filter_simps Let_def)

end
